theory Spec2Isabelle
  imports Main "HOL-Library.Word"
begin

unbundle bit_operations_syntax

section \<open>Errors\<close>

text \<open>
  A Go \<open>error\<close> value. \<open>Errorf\<close> is an error built by \<open>fmt.Errorf\<close>, with its message;
  \<open>Canceled\<close> is what \<open>ctx.Err()\<close> returns once the context is done; \<open>External\<close> is an
  error handed back by the operating system or a library call, with its message.
\<close>

datatype error = Errorf string | Canceled | External string

text \<open>The method \<open>Error()\<close> of an error: its message.\<close>

fun ErrorString :: "error \<Rightarrow> string" where
  "ErrorString (Errorf m) = m"
| "ErrorString Canceled = ''context canceled''"
| "ErrorString (External m) = m"

section \<open>Library functions used by the agent\<close>

text \<open>
  \<open>hexDigit\<close> is the table both \<open>encoding/hex\<close> and \<open>net.HardwareAddr.String\<close> index:
  the high nibble \<open>b >> 4\<close> first, then the low nibble \<open>b & 0x0f\<close>.
\<close>

definition hexDigit :: string where
  "hexDigit = ''0123456789abcdef''"

definition hexByte :: "8 word \<Rightarrow> string" where
  "hexByte b = [hexDigit ! unat (drop_bit 4 b), hexDigit ! unat (b AND 15)]"

text \<open>\<open>hex.EncodeToString\<close>: two digits per byte, no separator.\<close>

fun EncodeToString :: "8 word list \<Rightarrow> string" where
  "EncodeToString [] = []"
| "EncodeToString (b # bs) = hexByte b @ EncodeToString bs"

text \<open>
  \<open>net.HardwareAddr.String\<close>: the empty string for an address of length 0, otherwise the
  bytes in hexadecimal with a colon before every byte but the first.
\<close>

fun HardwareAddr_String :: "8 word list \<Rightarrow> string" where
  "HardwareAddr_String [] = []"
| "HardwareAddr_String [b] = hexByte b"
| "HardwareAddr_String (b # c # bs) = hexByte b @ CHR '':'' # HardwareAddr_String (c # bs)"

text \<open>\<open>strings.Join\<close>.\<close>

fun Join :: "string list \<Rightarrow> string \<Rightarrow> string" where
  "Join [] sep = []"
| "Join [a] sep = a"
| "Join (a # b # cs) sep = a @ sep @ Join (b # cs) sep"

text \<open>
  \<open>strings.TrimSpace\<close> removes leading and trailing Unicode white space. On the bytes of
  a string these are the six ASCII characters tab, line feed, vertical tab, form feed,
  carriage return and space, and the UTF-8 encodings of U+0085, U+00A0, U+1680,
  U+2000..U+200A, U+2028, U+2029, U+202F, U+205F and U+3000. \<open>spaceWidth s\<close> is the
  number of bytes of the white-space character \<open>s\<close> starts with, 0 when it starts with
  none; \<open>spaceWidthRev\<close> is the same for the end of a string, read backwards.
\<close>

definition asciiSpace :: "char \<Rightarrow> bool" where
  "asciiSpace c = (c = CHR 0x09 \<or> c = CHR 0x0A \<or> c = CHR 0x0B \<or> c = CHR 0x0C \<or> c = CHR 0x0D \<or> c = CHR 0x20)"

fun spaceWidth :: "string \<Rightarrow> nat" where
  "spaceWidth [] = 0"
| "spaceWidth [a] = (if asciiSpace a then 1 else 0)"
| "spaceWidth [a, b] =
     (if asciiSpace a then 1
      else if a = CHR 0xC2 \<and> (b = CHR 0x85 \<or> b = CHR 0xA0) then 2 else 0)"
| "spaceWidth (a # b # c # _) =
     (if asciiSpace a then 1
      else if a = CHR 0xC2 \<and> (b = CHR 0x85 \<or> b = CHR 0xA0) then 2
      else if a = CHR 0xE1 \<and> b = CHR 0x9A \<and> c = CHR 0x80 then 3
      else if a = CHR 0xE2 \<and> b = CHR 0x80 \<and>
              (of_char c \<in> {0x80 .. (0x8A::nat)} \<or> c = CHR 0xA8 \<or> c = CHR 0xA9 \<or> c = CHR 0xAF) then 3
      else if a = CHR 0xE2 \<and> b = CHR 0x81 \<and> c = CHR 0x9F then 3
      else if a = CHR 0xE3 \<and> b = CHR 0x80 \<and> c = CHR 0x80 then 3
      else 0)"

fun spaceWidthRev :: "string \<Rightarrow> nat" where
  "spaceWidthRev [] = 0"
| "spaceWidthRev [a] = (if asciiSpace a then 1 else 0)"
| "spaceWidthRev [b, a] =
     (if asciiSpace b then 1
      else if a = CHR 0xC2 \<and> (b = CHR 0x85 \<or> b = CHR 0xA0) then 2 else 0)"
| "spaceWidthRev (c # b # a # _) =
     (if asciiSpace c then 1
      else if a = CHR 0xE1 \<and> b = CHR 0x9A \<and> c = CHR 0x80 then 3
      else if a = CHR 0xE2 \<and> b = CHR 0x80 \<and>
              (of_char c \<in> {0x80 .. (0x8A::nat)} \<or> c = CHR 0xA8 \<or> c = CHR 0xA9 \<or> c = CHR 0xAF) then 3
      else if a = CHR 0xE2 \<and> b = CHR 0x81 \<and> c = CHR 0x9F then 3
      else if a = CHR 0xE3 \<and> b = CHR 0x80 \<and> c = CHR 0x80 then 3
      else if b = CHR 0xC2 \<and> (c = CHR 0x85 \<or> c = CHR 0xA0) then 2
      else 0)"

function trimLeft :: "string \<Rightarrow> string" where
  "trimLeft s = (if spaceWidth s = 0 then s else trimLeft (drop (spaceWidth s) s))"
  by pat_completeness auto
termination
  by (relation "measure length") (auto simp: Suc_lessI intro: Nat.diff_less elim: spaceWidth.elims)

function trimRightRev :: "string \<Rightarrow> string" where
  "trimRightRev s = (if spaceWidthRev s = 0 then s else trimRightRev (drop (spaceWidthRev s) s))"
  by pat_completeness auto
termination
  by (relation "measure length") (auto simp: Suc_lessI intro: Nat.diff_less elim: spaceWidthRev.elims)

definition TrimSpace :: "string \<Rightarrow> string" where
  "TrimSpace s = rev (trimRightRev (rev (trimLeft s)))"

section \<open>Identity (internal/identity/identity.go)\<close>

text \<open>
  What the identity code reads from the machine it runs on. \<open>net.Interface\<close> keeps the
  two fields the code looks at: \<open>Flags\<close> (a \<open>uint\<close>) and \<open>HardwareAddr\<close> (a byte slice,
  \<open>None\<close> for \<open>nil\<close>).
\<close>

record Interface =
  Flags :: "64 word"
  HardwareAddr :: "8 word list option"

definition FlagLoopback :: "64 word" where
  "FlagLoopback = push_bit 2 1"

text \<open>
  \<open>GOOS\<close> and \<open>GOARCH\<close> are \<open>runtime.GOOS\<close> and \<open>runtime.GOARCH\<close>; \<open>os_Hostname\<close> is the
  string \<open>os.Hostname()\<close> returns (its error is discarded by every caller);
  \<open>machine_id_file\<close> is the result of \<open>os.ReadFile("/etc/machine-id")\<close>;
  \<open>net_Interfaces\<close> is the result of \<open>net.Interfaces()\<close>; \<open>uuid_New\<close> is the string of
  the random UUID drawn at this start of the process (\<open>uuid.New\<close> panics when the
  random source fails; the model starts from a UUID that was drawn).
\<close>

record Host =
  GOOS :: string
  GOARCH :: string
  os_Hostname :: string
  machine_id_file :: "error + string"
  net_Interfaces :: "error + Interface list"
  uuid_New :: string

record Identity =
  NodeID :: string
  Fingerprint :: string
  Hostname :: string
  Platform :: string
  Arch :: string

text \<open>The loop of \<open>getMACAddress\<close> over the interfaces.\<close>

fun firstMAC :: "Interface list \<Rightarrow> error + string" where
  "firstMAC [] = Inl (Errorf ''no MAC address found'')"
| "firstMAC (iface # rest) =
     (if Flags iface AND FlagLoopback = 0 \<and> HardwareAddr iface \<noteq> None
      then Inr (HardwareAddr_String (the (HardwareAddr iface)))
      else firstMAC rest)"

definition getMACAddress :: "Host \<Rightarrow> error + string" where
  "getMACAddress h =
     (case net_Interfaces h of
        Inl err \<Rightarrow> Inl err
      | Inr interfaces \<Rightarrow> firstMAC interfaces)"

text \<open>
  \<open>generateFingerprint\<close>. The digest \<open>sha256\<close> (\<open>crypto/sha256\<close> applied to the bytes of
  a string) is a parameter.
\<close>

definition generateFingerprint :: "(string \<Rightarrow> 8 word list) \<Rightarrow> Host \<Rightarrow> error + string" where
  "generateFingerprint sha256 h =
     (let components = [];
          components =
            (if GOOS h = ''linux'' then
               (case machine_id_file h of
                  Inr machineID \<Rightarrow> components @ [TrimSpace machineID]
                | Inl err \<Rightarrow> components)
             else if GOOS h = ''windows'' then components @ [os_Hostname h]
             else components);
          components =
            (case getMACAddress h of
               Inr mac \<Rightarrow> components @ [mac]
             | Inl err \<Rightarrow> components)
      in Inr (EncodeToString (sha256 (Join components ''|''))))"

definition Generate :: "(string \<Rightarrow> 8 word list) \<Rightarrow> Host \<Rightarrow> error + Identity" where
  "Generate sha256 h =
     (case generateFingerprint sha256 h of
        Inl err \<Rightarrow> Inl (Errorf (''failed to generate fingerprint: '' @ ErrorString err))
      | Inr fp \<Rightarrow>
          Inr \<lparr>NodeID = uuid_New h, Fingerprint = fp, Hostname = os_Hostname h,
               Platform = GOOS h, Arch = GOARCH h\<rparr>)"

text \<open>
  The vocabulary of the specification: a usable interface is one that is not a loopback
  and has a hardware address; the stable inputs of the fingerprint are the machine
  identifier, when the platform gives one, and the hardware address of the first usable
  interface.
\<close>

definition usable :: "Interface \<Rightarrow> bool" where
  "usable iface = (Flags iface AND FlagLoopback = 0 \<and> HardwareAddr iface \<noteq> None)"

definition has_usable_interface :: "Host \<Rightarrow> bool" where
  "has_usable_interface h =
     (case net_Interfaces h of Inl err \<Rightarrow> False | Inr interfaces \<Rightarrow> list_ex usable interfaces)"

definition machine_identifier :: "Host \<Rightarrow> string option" where
  "machine_identifier h =
     (if GOOS h = ''linux'' then
        (case machine_id_file h of Inr m \<Rightarrow> Some (TrimSpace m) | Inl err \<Rightarrow> None)
      else if GOOS h = ''windows'' then Some (os_Hostname h)
      else None)"

definition hardware_address :: "Host \<Rightarrow> 8 word list option" where
  "hardware_address h =
     (case net_Interfaces h of
        Inl err \<Rightarrow> None
      | Inr interfaces \<Rightarrow>
          (case List.find usable interfaces of None \<Rightarrow> None | Some iface \<Rightarrow> HardwareAddr iface))"

text \<open>The string the digest is applied to, written from the two stable inputs.\<close>

fun digest_input :: "string option \<Rightarrow> 8 word list option \<Rightarrow> string" where
  "digest_input None None = []"
| "digest_input (Some m) None = m"
| "digest_input None (Some a) = HardwareAddr_String a"
| "digest_input (Some m) (Some a) = m @ ''|'' @ HardwareAddr_String a"

section \<open>Transport (internal/transport/client.go)\<close>

text \<open>
  The verb \<open>%d\<close> of \<open>fmt\<close> on an \<open>int\<close>: the decimal digits, with a minus sign for a
  negative number.
\<close>

definition digitChar :: "nat \<Rightarrow> char" where
  "digitChar n = ''0123456789'' ! n"

function decimal :: "nat \<Rightarrow> string" where
  "decimal n = (if n < 10 then [digitChar n] else decimal (n div 10) @ [digitChar (n mod 10)])"
  by pat_completeness auto
termination
  by (relation "measure id") auto

definition Sprintf_d :: "int \<Rightarrow> string" where
  "Sprintf_d i = (if i < 0 then CHR ''-'' # decimal (nat (- i)) else decimal (nat i))"

text \<open>
  An \<open>http.Response\<close> as the agent reads it: the status code and the bytes its body
  yields to a reader.
\<close>

record Response =
  StatusCode :: int
  Body :: string

text \<open>
  \<open>DecodeJSON\<close>. The JSON decoder \<open>json.NewDecoder(resp.Body).Decode(v)\<close> is the
  parameter \<open>decode\<close>: from the bytes of the body to the decoded value or an error.
\<close>

definition DecodeJSON :: "(string \<Rightarrow> error + 'a) \<Rightarrow> Response \<Rightarrow> error + 'a" where
  "DecodeJSON decode resp =
     (if StatusCode resp \<ge> 400 then
        (let body = Body resp
         in Inl (Errorf (''HTTP '' @ Sprintf_d (StatusCode resp) @ '': '' @ body)))
      else decode (Body resp))"

text \<open>
  The file system the process sees: the files that exist, with their contents, and the
  paths that cannot be written. \<open>os.ReadFile\<close> and \<open>os.Stat\<close> succeed on the files
  that exist; \<open>os.WriteFile\<close> replaces the content of a path that can be written.
\<close>

record OS =
  files :: "string \<rightharpoonup> string"
  read_only :: "string \<Rightarrow> bool"

definition ReadFile :: "OS \<Rightarrow> string \<Rightarrow> error + string" where
  "ReadFile os name =
     (case files os name of
        None \<Rightarrow> Inl (External (''open '' @ name @ '': no such file or directory''))
      | Some data \<Rightarrow> Inr data)"

definition WriteFile :: "string \<Rightarrow> string \<Rightarrow> OS \<Rightarrow> error option \<times> OS" where
  "WriteFile name data os =
     (if read_only os name then (Some (External (''open '' @ name @ '': permission denied'')), os)
      else (None, os\<lparr>files := (files os)(name \<mapsto> data)\<rparr>))"

text \<open>
  \<open>tls.LoadX509KeyPair\<close> reads the two files and hands them to \<open>tls.X509KeyPair\<close>, the
  parameter \<open>X509KeyPair\<close>, which parses the certificate and the key and checks that they
  belong together.
\<close>

definition LoadX509KeyPair ::
  "(string \<Rightarrow> string \<Rightarrow> error + 'kp) \<Rightarrow> OS \<Rightarrow> string \<Rightarrow> string \<Rightarrow> error + 'kp" where
  "LoadX509KeyPair X509KeyPair os certFile keyFile =
     (case ReadFile os certFile of
        Inl err \<Rightarrow> Inl err
      | Inr certPEMBlock \<Rightarrow>
          (case ReadFile os keyFile of
             Inl err \<Rightarrow> Inl err
           | Inr keyPEMBlock \<Rightarrow> X509KeyPair certPEMBlock keyPEMBlock))"

text \<open>
  \<open>CertPool.AppendCertsFromPEM\<close> appends to the pool the certificates it can parse from
  the PEM data and reports whether it parsed any. The parser is the parameter
  \<open>ParseCerts\<close>: the certificates found in the data.
\<close>

definition AppendCertsFromPEM :: "(string \<Rightarrow> 'ca list) \<Rightarrow> 'ca list \<Rightarrow> string \<Rightarrow> 'ca list \<times> bool" where
  "AppendCertsFromPEM ParseCerts pool pemCerts = (pool @ ParseCerts pemCerts, ParseCerts pemCerts \<noteq> [])"

record ('kp, 'ca) Config_tls =
  Certificates :: "'kp list"
  RootCAs :: "'ca list"

record ('kp, 'ca) Client =
  baseURL :: string
  httpClient_Transport :: "('kp, 'ca) Config_tls option"
  useMTLS :: bool

definition NewClient :: "string \<Rightarrow> ('kp, 'ca) Client" where
  "NewClient url = \<lparr>baseURL = url, httpClient_Transport = None, useMTLS = False\<rparr>"

text \<open>
  \<open>EnableMTLS\<close> returns the error (\<open>None\<close> for \<open>nil\<close>) and the client as the call leaves
  it. The result of \<open>AppendCertsFromPEM\<close> that says whether a certificate was parsed is
  not looked at.
\<close>

definition EnableMTLS ::
  "(string \<Rightarrow> string \<Rightarrow> error + 'kp) \<Rightarrow> (string \<Rightarrow> 'ca list) \<Rightarrow> OS \<Rightarrow> ('kp, 'ca) Client \<Rightarrow>
     string \<Rightarrow> string \<Rightarrow> string \<Rightarrow> error option \<times> ('kp, 'ca) Client" where
  "EnableMTLS X509KeyPair ParseCerts os c certPath keyPath caPath =
     (case LoadX509KeyPair X509KeyPair os certPath keyPath of
        Inl err \<Rightarrow> (Some (Errorf (''failed to load client cert: '' @ ErrorString err)), c)
      | Inr cert \<Rightarrow>
          (case ReadFile os caPath of
             Inl err \<Rightarrow> (Some (Errorf (''failed to load CA cert: '' @ ErrorString err)), c)
           | Inr caCert \<Rightarrow>
               (let caCertPool = fst (AppendCertsFromPEM ParseCerts [] caCert);
                    tlsConfig = \<lparr>Certificates = [cert], RootCAs = caCertPool\<rparr>
                in (None, c\<lparr>httpClient_Transport := Some tlsConfig, useMTLS := True\<rparr>))))"

section \<open>Enrollment (internal/enroll/client.go)\<close>

record EnrollRequest =
  req_NodeID :: string
  req_Fingerprint :: string
  req_Hostname :: string
  req_Platform :: string
  req_Arch :: string
  req_Token :: string

record EnrollResponse =
  Status :: string
  Certificate :: string
  CACert :: string
  Message :: string

record EnrollClient =
  transport_baseURL :: string
  identity :: Identity
  token :: string

definition NewEnrollClient :: "string \<Rightarrow> string \<Rightarrow> Identity \<Rightarrow> EnrollClient" where
  "NewEnrollClient backendURL tok ident =
     \<lparr>transport_baseURL = backendURL, identity = ident, token = tok\<rparr>"

text \<open>
  One call of \<open>Enroll\<close>: the request it builds and posts to \<open>/api/v1/agent/enroll\<close>, and
  what it returns when \<open>transport.Post\<close> answers \<open>posted\<close>.
\<close>

definition enrollRequest :: "EnrollClient \<Rightarrow> EnrollRequest" where
  "enrollRequest c =
     \<lparr>req_NodeID = NodeID (identity c), req_Fingerprint = Fingerprint (identity c),
      req_Hostname = Hostname (identity c), req_Platform = Platform (identity c),
      req_Arch = Arch (identity c), req_Token = token c\<rparr>"

definition Enroll :: "(string \<Rightarrow> error + EnrollResponse) \<Rightarrow> error + Response \<Rightarrow> error + EnrollResponse" where
  "Enroll decode posted =
     (case posted of
        Inl err \<Rightarrow> Inl (Errorf (''enrollment request failed: '' @ ErrorString err))
      | Inr resp \<Rightarrow> DecodeJSON decode resp)"

text \<open>
  What the \<open>select\<close> of \<open>WaitForApproval\<close> receives, one event per turn of the loop:
  \<open>CtxDone\<close> when the context is done, \<open>Tick t posted\<close> when the ticker fires; \<open>t\<close> is the
  time the ticker sends, counted from the creation of the ticker at the entry of
  \<open>WaitForApproval\<close>, and \<open>posted\<close> is what \<open>transport.Post\<close> answers to the request issued
  on this tick. When the context is done and a tick is ready, \<open>select\<close> may take either;
  the list of events says which it took. The run of \<open>WaitForApproval\<close> on a list of events
  gives what it returns,
  \<open>None\<close> while it still waits in \<open>select\<close> after the last event, and the requests it has
  posted, each with the time of the tick that released it.
\<close>

datatype event = CtxDone | Tick nat "error + Response"

type_synonym posted = "nat \<times> string \<times> EnrollRequest"

fun WaitForApproval ::
  "(string \<Rightarrow> error + EnrollResponse) \<Rightarrow> EnrollClient \<Rightarrow> event list \<Rightarrow>
     (error + EnrollResponse) option \<times> posted list" where
  "WaitForApproval decode c [] = (None, [])"
| "WaitForApproval decode c (CtxDone # evs) = (Some (Inl Canceled), [])"
| "WaitForApproval decode c (Tick t posted # evs) =
     (let request = (t, ''/api/v1/agent/enroll'', enrollRequest c);
          continue = (fst (WaitForApproval decode c evs), request # snd (WaitForApproval decode c evs))
      in case Enroll decode posted of
           Inl err \<Rightarrow> continue
         | Inr resp \<Rightarrow>
             if Status resp = ''approved'' then (Some (Inr resp), [request])
             else if Status resp = ''rejected'' then
               (Some (Inl (Errorf (''enrollment rejected: '' @ Message resp))), [request])
             else continue)"

text \<open>
  \<open>SaveCertificates\<close>; \<open>keyPEM\<close> is the PEM encoding of the private key. The three writes
  happen in this order and the first failure ends the call, leaving the earlier writes.
  The permission bits of the files are left out.
\<close>

definition SaveCertificates ::
  "string \<Rightarrow> string \<Rightarrow> string \<Rightarrow> string \<Rightarrow> string \<Rightarrow> string \<Rightarrow> OS \<Rightarrow> error option \<times> OS" where
  "SaveCertificates certPEM caPEM certPath caPath keyPath keyPEM os =
     (case WriteFile certPath certPEM os of
        (Some err, os1) \<Rightarrow> (Some (Errorf (''failed to save certificate: '' @ ErrorString err)), os1)
      | (None, os1) \<Rightarrow>
          (case WriteFile caPath caPEM os1 of
             (Some err, os2) \<Rightarrow> (Some (Errorf (''failed to save CA certificate: '' @ ErrorString err)), os2)
           | (None, os2) \<Rightarrow>
               (case WriteFile keyPath keyPEM os2 of
                  (Some err, os3) \<Rightarrow> (Some (Errorf (''failed to save private key: '' @ ErrorString err)), os3)
                | (None, os3) \<Rightarrow> (None, os3))))"

text \<open>
  \<open>GenerateCSR\<close>: \<open>GenerateKey\<close> is the result of \<open>rsa.GenerateKey\<close> and
  \<open>CreateCertificateRequest\<close> the library function of that name, applied to the common
  name and the DNS name of the template and to the key.
\<close>

definition GenerateCSR ::
  "error + 'k \<Rightarrow> (string \<Rightarrow> string \<Rightarrow> 'k \<Rightarrow> error + string) \<Rightarrow> Identity \<Rightarrow> error + 'k \<times> string" where
  "GenerateCSR GenerateKey CreateCertificateRequest ident =
     (case GenerateKey of
        Inl err \<Rightarrow> Inl err
      | Inr privateKey \<Rightarrow>
          (case CreateCertificateRequest (NodeID ident) (Hostname ident) privateKey of
             Inl err \<Rightarrow> Inl err
           | Inr csrBytes \<Rightarrow> Inr (privateKey, csrBytes)))"

section \<open>Executor registry (internal/executor/executor.go)\<close>

text \<open>
  \<open>Params\<close> and \<open>Data\<close> are maps from strings to decoded JSON values, of a type \<open>'v\<close> that
  is left open; a \<open>nil\<close> map is the empty map.
\<close>

record 'v Action =
  ID :: string
  Type :: string
  Params :: "string \<rightharpoonup> 'v"
  Timeout :: int

record 'v Result =
  ActionID :: string
  Success :: bool
  Output :: string
  Error :: string
  Data :: "string \<rightharpoonup> 'v"

text \<open>
  An executor works on the machine: \<open>Execute\<close> takes the state \<open>'w\<close> of the world and
  returns its result with the state it leaves. An executor is taken to return a result,
  never a nil pointer.
\<close>

record ('v, 'w) Executor =
  Execute :: "'v Action \<Rightarrow> 'w \<Rightarrow> 'v Result \<times> 'w"
  SupportedActions :: "string list"

record ('v, 'w) Registry =
  executors :: "string \<rightharpoonup> ('v, 'w) Executor"

definition NewRegistry :: "('v, 'w) Registry" where
  "NewRegistry = \<lparr>executors = Map.empty\<rparr>"

definition Register :: "('v, 'w) Executor \<Rightarrow> ('v, 'w) Registry \<Rightarrow> ('v, 'w) Registry" where
  "Register exec r =
     r\<lparr>executors := fold (\<lambda>actionType m. m(actionType \<mapsto> exec)) (SupportedActions exec) (executors r)\<rparr>"

text \<open>
  The calls the agent makes, in the order it makes them: \<open>Executed a\<close> is a call of the
  method \<open>Execute\<close> of an executor with the action \<open>a\<close>, \<open>Posted path result\<close> a call of
  \<open>transport.Post\<close> with a result as its body, \<open>Polled path\<close> a call of \<open>transport.Get\<close>.
  The state of a run is the state of the world and the calls made so far.
\<close>

datatype 'v call = Executed "'v Action" | Posted string "'v Result" | Polled string

record ('v, 'w) run =
  world :: 'w
  calls :: "'v call list"

definition Registry_Execute ::
  "('v, 'w) Registry \<Rightarrow> 'v Action \<Rightarrow> ('v, 'w) run \<Rightarrow> 'v Result \<times> ('v, 'w) run" where
  "Registry_Execute r action s =
     (case executors r (Type action) of
        None \<Rightarrow>
          (\<lparr>ActionID = ID action, Success = False, Output = [],
            Error = ''unsupported action type: '' @ Type action, Data = Map.empty\<rparr>, s)
      | Some exec \<Rightarrow>
          (let (result, w) = Execute exec action (world s)
           in (result, s\<lparr>world := w, calls := calls s @ [Executed action]\<rparr>)))"

section \<open>The agent (cmd/agent/main.go)\<close>

text \<open>
  \<open>transport.Post\<close> and \<open>transport.Get\<close> of the task loop are the parameters \<open>Post\<close> and
  \<open>Get\<close>: the control plane's answer, or the error of the call, may depend on the state of
  the world, which the call may change. The lines written to the log are left out
  throughout.
\<close>

type_synonym ('v, 'w) post = "string \<Rightarrow> 'v Result \<Rightarrow> 'w \<Rightarrow> (error + Response) \<times> 'w"

type_synonym 'w get = "string \<Rightarrow> 'w \<Rightarrow> (error + Response) \<times> 'w"

text \<open>The loop over the tasks of one poll: execute, then report, one task after the other.\<close>

fun executeTasks ::
  "('v, 'w) Registry \<Rightarrow> ('v, 'w) post \<Rightarrow> 'v Action list \<Rightarrow> ('v, 'w) run \<Rightarrow> ('v, 'w) run" where
  "executeTasks registry Post [] s = s"
| "executeTasks registry Post (task # tasks) s =
     (let (result, s1) = Registry_Execute registry task s;
          path = ''/api/v1/agent/tasks/'' @ ID task @ ''/result'';
          (answer, w) = Post path result (world s1);
          s2 = s1\<lparr>world := w, calls := calls s1 @ [Posted path result]\<rparr>
      in executeTasks registry Post tasks s2)"

text \<open>One tick of \<open>taskLoop\<close>: poll, decode, run the tasks.\<close>

definition taskTick ::
  "('v, 'w) Registry \<Rightarrow> 'w get \<Rightarrow> ('v, 'w) post \<Rightarrow> (string \<Rightarrow> error + 'v Action list) \<Rightarrow>
     ('v, 'w) run \<Rightarrow> ('v, 'w) run" where
  "taskTick registry Get Post decode s =
     (let (answer, w) = Get ''/api/v1/agent/tasks/poll'' (world s);
          s1 = s\<lparr>world := w, calls := calls s @ [Polled ''/api/v1/agent/tasks/poll'']\<rparr>
      in case answer of
           Inl err \<Rightarrow> s1
         | Inr resp \<Rightarrow>
             (case DecodeJSON decode resp of
                Inl err \<Rightarrow> s1
              | Inr tasks \<Rightarrow> executeTasks registry Post tasks s1))"

record Config =
  BackendURL :: string
  EnrollToken :: string
  CertPath :: string
  KeyPath :: string
  CACertPath :: string

definition fileExists :: "OS \<Rightarrow> string \<Rightarrow> bool" where
  "fileExists os path = (files os path \<noteq> None)"

text \<open>
  The library functions \<open>main\<close> reaches, gathered: the digest of the fingerprint, the JSON
  decoder of the enrollment response, key generation, the certificate request, the PEM
  encoding of the PKCS#1 private key, and the two parsers of \<open>EnableMTLS\<close>.
\<close>

record ('k, 'kp, 'ca) Lib =
  sha256_Sum :: "string \<Rightarrow> 8 word list"
  json_Decode :: "string \<Rightarrow> error + EnrollResponse"
  rsa_GenerateKey :: "error + 'k"
  x509_CreateCertificateRequest :: "string \<Rightarrow> string \<Rightarrow> 'k \<Rightarrow> error + string"
  pem_EncodeToMemory :: "'k \<Rightarrow> string"
  tls_X509KeyPair :: "string \<Rightarrow> string \<Rightarrow> error + 'kp"
  x509_ParseCerts :: "string \<Rightarrow> 'ca list"

text \<open>
  How the start of \<open>main\<close> ends: \<open>Fatal m\<close> is \<open>logger.Fatal\<close> with the message \<open>m\<close>, which
  ends the process; \<open>Waiting\<close> is a process still inside \<open>WaitForApproval\<close> after the last
  event; \<open>Started c\<close> is a process that has reached the loops with the transport \<open>c\<close>.
  \<open>requests\<close> are the enrollment requests posted and \<open>os_after\<close> the file system left.
\<close>

datatype ('kp, 'ca) ending = Fatal string | Waiting | Started "('kp, 'ca) Client"

record ('kp, 'ca) startup =
  ending :: "('kp, 'ca) ending"
  requests :: "posted list"
  os_after :: OS

text \<open>The part of \<open>main\<close> from "Initialize transport with mTLS" to "mTLS enabled".\<close>

definition startTransport ::
  "('k, 'kp, 'ca) Lib \<Rightarrow> Config \<Rightarrow> posted list \<Rightarrow> OS \<Rightarrow> ('kp, 'ca) startup" where
  "startTransport lib cfg reqs os =
     (case EnableMTLS (tls_X509KeyPair lib) (x509_ParseCerts lib) os (NewClient (BackendURL cfg))
             (CertPath cfg) (KeyPath cfg) (CACertPath cfg) of
        (Some err, transportClient) \<Rightarrow>
          \<lparr>ending = Fatal ''Failed to enable mTLS'', requests = reqs, os_after = os\<rparr>
      | (None, transportClient) \<Rightarrow>
          \<lparr>ending = Started transportClient, requests = reqs, os_after = os\<rparr>)"

text \<open>
  The enrollment flow of \<open>main\<close>, entered when the agent is not enrolled. It ends in a
  fatal exit with its message, or still waits for an approval, or reaches "Enrollment
  completed successfully"; each time with the file system it leaves and the requests it
  has posted.
\<close>

datatype flow = FlowFatal string OS | FlowWaiting | FlowCompleted OS

definition enrollmentFlow ::
  "('k, 'kp, 'ca) Lib \<Rightarrow> Config \<Rightarrow> Identity \<Rightarrow> event list \<Rightarrow> OS \<Rightarrow> flow \<times> posted list" where
  "enrollmentFlow lib cfg ident evs os =
     (if EnrollToken cfg = [] then (FlowFatal ''EINFRA_ENROLL_TOKEN not set'' os, [])
      else
        (let enrollClient = NewEnrollClient (BackendURL cfg) (EnrollToken cfg) ident;
             (waited, reqs) = WaitForApproval (json_Decode lib) enrollClient evs
         in case waited of
              None \<Rightarrow> (FlowWaiting, reqs)
            | Some (Inl err) \<Rightarrow> (FlowFatal ''Enrollment failed'' os, reqs)
            | Some (Inr resp) \<Rightarrow>
                (case GenerateCSR (rsa_GenerateKey lib) (x509_CreateCertificateRequest lib) ident of
                   Inl err \<Rightarrow> (FlowFatal ''Failed to generate CSR'' os, reqs)
                 | Inr (privateKey, csr) \<Rightarrow>
                     (case SaveCertificates (Certificate resp) (CACert resp) (CertPath cfg)
                             (CACertPath cfg) (KeyPath cfg) (pem_EncodeToMemory lib privateKey) os of
                        (Some err, os1) \<Rightarrow> (FlowFatal ''Failed to save certificates'' os1, reqs)
                      | (None, os1) \<Rightarrow> (FlowCompleted os1, reqs)))))"

text \<open>
  \<open>main\<close> from the generation of the identity to the start of the loops, on the host
  \<open>h\<close>, with the configuration \<open>cfg\<close>, the file system \<open>os\<close> and the events \<open>evs\<close> that the
  enrollment polling receives.
\<close>

definition enrolled :: "Config \<Rightarrow> OS \<Rightarrow> bool" where
  "enrolled cfg os = (fileExists os (CertPath cfg) \<and> fileExists os (KeyPath cfg))"

definition main ::
  "('k, 'kp, 'ca) Lib \<Rightarrow> Host \<Rightarrow> Config \<Rightarrow> OS \<Rightarrow> event list \<Rightarrow> ('kp, 'ca) startup" where
  "main lib h cfg os evs =
     (case Generate (sha256_Sum lib) h of
        Inl err \<Rightarrow> \<lparr>ending = Fatal ''Failed to generate identity'', requests = [], os_after = os\<rparr>
      | Inr ident \<Rightarrow>
          (if \<not> enrolled cfg os then
             (case enrollmentFlow lib cfg ident evs os of
                (FlowFatal m os1, reqs) \<Rightarrow> \<lparr>ending = Fatal m, requests = reqs, os_after = os1\<rparr>
              | (FlowWaiting, reqs) \<Rightarrow> \<lparr>ending = Waiting, requests = reqs, os_after = os\<rparr>
              | (FlowCompleted os1, reqs) \<Rightarrow> startTransport lib cfg reqs os1)
           else startTransport lib cfg [] os))"

section \<open>Concrete inputs\<close>

text \<open>
  A Linux host whose only interface is the loopback, which has no hardware address, and
  whose \<open>/etc/machine-id\<close> cannot be read. The flags of the loopback are up, loopback and
  running (\<open>0x25\<close>); those of an Ethernet interface below are up, broadcast, multicast
  and running (\<open>0x33\<close>).
\<close>

definition loopback_only_host :: Host where
  "loopback_only_host =
     \<lparr>GOOS = ''linux'', GOARCH = ''amd64'', os_Hostname = ''node-a'',
      machine_id_file = Inl (External ''open /etc/machine-id: no such file or directory''),
      net_Interfaces = Inr [\<lparr>Flags = 0x25, HardwareAddr = None\<rparr>],
      uuid_New = ''7c9e6679-7425-40de-944b-e07fc1f90ae7''\<rparr>"

text \<open>
  Two Linux hosts. The first has no readable \<open>/etc/machine-id\<close> and an interface
  \<open>eth0\<close> with the hardware address \<open>02:42:ac:11:00:02\<close> after the loopback. The second
  has only the loopback, and an \<open>/etc/machine-id\<close> that holds the text
  \<open>02:42:ac:11:00:02\<close> and a line feed.
\<close>

definition host_with_mac :: Host where
  "host_with_mac =
     \<lparr>GOOS = ''linux'', GOARCH = ''amd64'', os_Hostname = ''node-a'',
      machine_id_file = Inl (External ''open /etc/machine-id: no such file or directory''),
      net_Interfaces = Inr [\<lparr>Flags = 0x25, HardwareAddr = None\<rparr>,
                            \<lparr>Flags = 0x33, HardwareAddr = Some [0x02, 0x42, 0xac, 0x11, 0x00, 0x02]\<rparr>],
      uuid_New = ''7c9e6679-7425-40de-944b-e07fc1f90ae7''\<rparr>"

definition host_with_machine_id :: Host where
  "host_with_machine_id =
     \<lparr>GOOS = ''linux'', GOARCH = ''amd64'', os_Hostname = ''node-b'',
      machine_id_file = Inr ''02:42:ac:11:00:02\<newline>'',
      net_Interfaces = Inr [\<lparr>Flags = 0x25, HardwareAddr = None\<rparr>],
      uuid_New = ''16fd2706-8baf-433b-82eb-8c7fada847da''\<rparr>"

text \<open>
  A Linux host with both inputs: the machine identifier \<open>4c4c4544\<close> and the hardware
  address \<open>02:42:ac:11:00:02\<close>; and a second one that differs in the last byte of the
  hardware address.
\<close>

definition host_with_both :: Host where
  "host_with_both =
     \<lparr>GOOS = ''linux'', GOARCH = ''amd64'', os_Hostname = ''node-c'',
      machine_id_file = Inr ''4c4c4544\<newline>'',
      net_Interfaces = Inr [\<lparr>Flags = 0x25, HardwareAddr = None\<rparr>,
                            \<lparr>Flags = 0x33, HardwareAddr = Some [0x02, 0x42, 0xac, 0x11, 0x00, 0x02]\<rparr>],
      uuid_New = ''7c9e6679-7425-40de-944b-e07fc1f90ae7''\<rparr>"

definition host_with_both' :: Host where
  "host_with_both' =
     \<lparr>GOOS = ''linux'', GOARCH = ''amd64'', os_Hostname = ''node-d'',
      machine_id_file = Inr ''4c4c4544\<newline>'',
      net_Interfaces = Inr [\<lparr>Flags = 0x25, HardwareAddr = None\<rparr>,
                            \<lparr>Flags = 0x33, HardwareAddr = Some [0x02, 0x42, 0xac, 0x11, 0x00, 0x03]\<rparr>],
      uuid_New = ''16fd2706-8baf-433b-82eb-8c7fada847da''\<rparr>"

text \<open>A stand-in for a digest without collisions: the bytes of the string themselves.\<close>

definition bytes_of :: "string \<Rightarrow> 8 word list" where
  "bytes_of s = map (\<lambda>c. word_of_nat (of_char c)) s"

text \<open>
  Stand-ins for the JSON decoder, each knowing the documents used below and refusing
  every other one: the empty array as a list of actions, and five enrollment
  responses. A field that the document leaves out is decoded as the empty string.
\<close>

definition decode_tasks :: "string \<Rightarrow> error + 'v Action list" where
  "decode_tasks body =
     (if body = ''[]'' then Inr [] else Inl (External ''json: cannot unmarshal''))"

definition approved_without_certificates :: EnrollResponse where
  "approved_without_certificates =
     \<lparr>Status = ''approved'', Certificate = [], CACert = [], Message = []\<rparr>"

definition approved_without_ca :: EnrollResponse where
  "approved_without_ca =
     \<lparr>Status = ''approved'', Certificate = ''CERTIFICATE PEM'', CACert = [], Message = []\<rparr>"

definition approved_with_certificates :: EnrollResponse where
  "approved_with_certificates =
     \<lparr>Status = ''approved'', Certificate = ''CERTIFICATE PEM'', CACert = ''CA PEM'', Message = []\<rparr>"

definition rejected_response :: EnrollResponse where
  "rejected_response =
     \<lparr>Status = ''rejected'', Certificate = [], CACert = [], Message = ''unknown token''\<rparr>"

definition pending_response :: EnrollResponse where
  "pending_response =
     \<lparr>Status = ''pending'', Certificate = [], CACert = [], Message = []\<rparr>"

definition body_approved_bare :: string where
  \<open>body_approved_bare = ''{"status":"approved"}''\<close>

definition body_approved_no_ca :: string where
  \<open>body_approved_no_ca = ''{"status":"approved","certificate":"CERTIFICATE PEM"}''\<close>

definition body_approved :: string where
  \<open>body_approved =
     ''{"status":"approved","certificate":"CERTIFICATE PEM","ca_cert":"CA PEM"}''\<close>

definition body_rejected :: string where
  \<open>body_rejected = ''{"status":"rejected","message":"unknown token"}''\<close>

definition body_pending :: string where
  \<open>body_pending = ''{"status":"pending"}''\<close>

definition decode_enroll :: "string \<Rightarrow> error + EnrollResponse" where
  "decode_enroll body =
     (if body = body_approved_bare then Inr approved_without_certificates
      else if body = body_approved_no_ca then Inr approved_without_ca
      else if body = body_approved then Inr approved_with_certificates
      else if body = body_rejected then Inr rejected_response
      else if body = body_pending then Inr pending_response
      else Inl (External ''json: cannot unmarshal''))"

text \<open>
  Stand-ins for the other library functions: key generation gives the key \<open>KEY\<close>, whose
  PEM encoding is \<open>KEY PEM\<close>; the parsers take every text but the empty one as valid PEM
  data, and refuse the empty text as the library does. The texts \<open>CERTIFICATE PEM\<close>,
  \<open>KEY PEM\<close> and \<open>CA PEM\<close> below stand for a certificate, the key it was issued for and
  a CA certificate; the library itself would refuse these texts, and a certificate that
  was not issued for the key.
\<close>

definition lib0 :: "(string, string \<times> string, string) Lib" where
  "lib0 =
     \<lparr>sha256_Sum = bytes_of,
      json_Decode = decode_enroll,
      rsa_GenerateKey = Inr ''KEY'',
      x509_CreateCertificateRequest = (\<lambda>commonName dnsName key. Inr ''CSR''),
      pem_EncodeToMemory = (\<lambda>key. key @ '' PEM''),
      tls_X509KeyPair =
        (\<lambda>certPEM keyPEM.
           if certPEM = [] \<or> keyPEM = []
           then Inl (External ''tls: failed to find any PEM data in certificate input'')
           else Inr (certPEM, keyPEM)),
      x509_ParseCerts = (\<lambda>pemCerts. if pemCerts = [] then [] else [pemCerts])\<rparr>"

definition cfg0 :: Config where
  "cfg0 =
     \<lparr>BackendURL = ''https://control.example'', EnrollToken = ''token-1'',
      CertPath = ''agent.crt'', KeyPath = ''agent.key'', CACertPath = ''ca.crt''\<rparr>"

definition ident0 :: Identity where
  "ident0 =
     \<lparr>NodeID = ''7c9e6679-7425-40de-944b-e07fc1f90ae7'', Fingerprint = ''00'',
      Hostname = ''node-a'', Platform = ''linux'', Arch = ''amd64''\<rparr>"

text \<open>
  File systems: an empty one where every path can be written; one that holds the
  certificate and the key, and no CA certificate; one that holds all three files, the CA
  certificate file being empty.
\<close>

definition os_empty :: OS where
  "os_empty = \<lparr>files = Map.empty, read_only = (\<lambda>name. False)\<rparr>"

definition os_without_ca :: OS where
  "os_without_ca =
     \<lparr>files = [''agent.crt'' \<mapsto> ''CERTIFICATE PEM'', ''agent.key'' \<mapsto> ''KEY PEM''],
      read_only = (\<lambda>name. False)\<rparr>"

definition os_empty_ca :: OS where
  "os_empty_ca =
     \<lparr>files = [''agent.crt'' \<mapsto> ''CERTIFICATE PEM'', ''agent.key'' \<mapsto> ''KEY PEM'',
               ''ca.crt'' \<mapsto> []],
      read_only = (\<lambda>name. False)\<rparr>"

text \<open>Ten seconds, the interval \<open>main\<close> polls with, in nanoseconds.\<close>

definition ten_seconds :: nat where
  "ten_seconds = 10 * 1000000000"

text \<open>
  An executor for two kinds of service actions, which counts its calls in the world and
  fails on \<open>service.stop\<close>; a registry that holds only this executor; and three
  actions, the last of a type that is not registered.
\<close>

definition service_executor :: "(string, nat) Executor" where
  "service_executor =
     \<lparr>Execute =
        (\<lambda>a w. (\<lparr>ActionID = ID a, Success = (Type a = ''service.start''), Output = [],
                   Error = (if Type a = ''service.start'' then [] else ''exit status 1''),
                   Data = Map.empty\<rparr>, Suc w)),
      SupportedActions = [''service.start'', ''service.stop'']\<rparr>"

definition registry0 :: "(string, nat) Registry" where
  "registry0 = Register service_executor NewRegistry"

definition start_action :: "string Action" where
  "start_action = \<lparr>ID = ''a-15'', Type = ''service.start'', Params = Map.empty, Timeout = 30\<rparr>"

definition stop_action :: "string Action" where
  "stop_action = \<lparr>ID = ''a-16'', Type = ''service.stop'', Params = Map.empty, Timeout = 30\<rparr>"

definition shell_action :: "string Action" where
  "shell_action = \<lparr>ID = ''a-17'', Type = ''shell.exec'', Params = Map.empty, Timeout = 30\<rparr>"

text \<open>
  A control plane that cannot be reached for reports: every call of \<open>Post\<close> fails, and
  each attempt adds 100 to the world, next to the 1 each call of the executor adds. A
  control plane that answers the poll with the status 200 and the body \<open>tasks\<close>, and a
  decoder that knows this body as the three actions above.
\<close>

definition failing_Post :: "(string, nat) post" where
  "failing_Post path result w = (Inl (External ''connection refused''), w + 100)"

definition tasks_Get :: "nat get" where
  "tasks_Get path w = (Inr \<lparr>StatusCode = 200, Body = ''tasks''\<rparr>, w)"

definition decode_three :: "string \<Rightarrow> error + string Action list" where
  "decode_three body =
     (if body = ''tasks'' then Inr [start_action, stop_action, shell_action]
      else Inl (External ''json: cannot unmarshal''))"

text \<open>
  Runs of events for the enrollment polling, with ticks every ten seconds: a failed
  request, a pending answer, then a rejection; a pending answer, then an approval with
  certificates; an approval without certificates on the first tick; an approval with a
  certificate and no CA certificate on the first tick.
\<close>

definition enroll_client0 :: EnrollClient where
  "enroll_client0 = NewEnrollClient (BackendURL cfg0) (EnrollToken cfg0) ident0"

definition events_rejected :: "event list" where
  "events_rejected =
     [Tick ten_seconds (Inl (External ''dial tcp: connection refused'')),
      Tick (2 * ten_seconds) (Inr \<lparr>StatusCode = 200, Body = body_pending\<rparr>),
      Tick (3 * ten_seconds) (Inr \<lparr>StatusCode = 200, Body = body_rejected\<rparr>)]"

definition events_approved :: "event list" where
  "events_approved =
     [Tick ten_seconds (Inr \<lparr>StatusCode = 200, Body = body_pending\<rparr>),
      Tick (2 * ten_seconds) (Inr \<lparr>StatusCode = 200, Body = body_approved\<rparr>)]"

definition events_approved_bare :: "event list" where
  "events_approved_bare =
     [Tick ten_seconds (Inr \<lparr>StatusCode = 200, Body = body_approved_bare\<rparr>)]"

definition events_approved_no_ca :: "event list" where
  "events_approved_no_ca =
     [Tick ten_seconds (Inr \<lparr>StatusCode = 200, Body = body_approved_no_ca\<rparr>)]"

section \<open>The vocabulary of the specification, continued\<close>

text \<open>Reading a decimal numeral back: the number its digits stand for.\<close>

definition read_decimal :: "string \<Rightarrow> nat" where
  "read_decimal s = foldl (\<lambda>acc c. 10 * acc + (of_char c - 48)) 0 s"

text \<open>
  An event after which \<open>WaitForApproval\<close> keeps polling: a tick on which the request
  fails (in the transport, by a status of 400 or more, or in decoding), or is answered
  with a status that is neither \<open>approved\<close> nor \<open>rejected\<close>.
\<close>

definition keeps_polling :: "(string \<Rightarrow> error + EnrollResponse) \<Rightarrow> event \<Rightarrow> bool" where
  "keeps_polling decode ev =
     (case ev of
        CtxDone \<Rightarrow> False
      | Tick t posted \<Rightarrow>
          (case Enroll decode posted of
             Inl err \<Rightarrow> True
           | Inr resp \<Rightarrow> Status resp \<noteq> ''approved'' \<and> Status resp \<noteq> ''rejected''))"

text \<open>
  The contract of \<open>time.NewTicker\<close> as far as it is used: a ticker created with a period
  sends its first tick one period after its creation, and the later ones after that.
\<close>

definition sent_after :: "nat \<Rightarrow> event \<Rightarrow> bool" where
  "sent_after interval ev = (case ev of CtxDone \<Rightarrow> True | Tick t posted \<Rightarrow> interval \<le> t)"

definition released_after :: "nat \<Rightarrow> posted \<Rightarrow> bool" where
  "released_after interval p = (interval \<le> fst p)"

text \<open>The times of the ticks among the events, in their order.\<close>

fun tick_times :: "event list \<Rightarrow> nat list" where
  "tick_times [] = []"
| "tick_times (CtxDone # evs) = tick_times evs"
| "tick_times (Tick t posted # evs) = t # tick_times evs"

text \<open>
  The event \<open>ev\<close> ends \<open>WaitForApproval\<close> with the result \<open>r\<close>: the context is done and
  \<open>r\<close> is its error; or the request of a tick is answered with the status \<open>approved\<close>
  and \<open>r\<close> is the response; or it is answered with the status \<open>rejected\<close> and \<open>r\<close> is
  the error that carries the message of the response.
\<close>

definition decides :: "(string \<Rightarrow> error + EnrollResponse) \<Rightarrow> event \<Rightarrow> error + EnrollResponse \<Rightarrow> bool" where
  "decides decode ev r =
     (case ev of
        CtxDone \<Rightarrow> r = Inl Canceled
      | Tick t posted \<Rightarrow>
          (case Enroll decode posted of
             Inl err \<Rightarrow> False
           | Inr resp \<Rightarrow>
               (Status resp = ''approved'' \<and> r = Inr resp) \<or>
               (Status resp = ''rejected'' \<and>
                r = Inl (Errorf (''enrollment rejected: '' @ Message resp)))))"

text \<open>
  What one task adds to the calls of a run when \<open>result\<close> is its result: the call of its
  executor, if its type is registered, then the report of the result.
\<close>

definition task_calls :: "('v, 'w) Registry \<Rightarrow> 'v Action \<Rightarrow> 'v Result \<Rightarrow> 'v call list" where
  "task_calls registry task result =
     (if executors registry (Type task) = None then [] else [Executed task]) @
     [Posted (''/api/v1/agent/tasks/'' @ ID task @ ''/result'') result]"

text \<open>
  The result of a task that is run in the world \<open>w\<close>: what the executor registered for
  its type returns for it in \<open>w\<close>, or the failure that names the unsupported type when
  none is registered. The world the task leaves: the world the executor leaves, if one is
  registered, passed through the report of this result to the result path of the task.
  The worlds in which the tasks of a batch run, the first in \<open>w\<close> and each later one in
  the world the task before it leaves.
\<close>

definition task_result :: "('v, 'w) Registry \<Rightarrow> 'v Action \<Rightarrow> 'w \<Rightarrow> 'v Result" where
  "task_result registry task w =
     (case executors registry (Type task) of
        None \<Rightarrow>
          \<lparr>ActionID = ID task, Success = False, Output = [],
           Error = ''unsupported action type: '' @ Type task, Data = Map.empty\<rparr>
      | Some exec \<Rightarrow> fst (Execute exec task w))"

definition world_after_task :: "('v, 'w) Registry \<Rightarrow> ('v, 'w) post \<Rightarrow> 'v Action \<Rightarrow> 'w \<Rightarrow> 'w" where
  "world_after_task registry Post task w =
     snd (Post (''/api/v1/agent/tasks/'' @ ID task @ ''/result'') (task_result registry task w)
            (case executors registry (Type task) of
               None \<Rightarrow> w
             | Some exec \<Rightarrow> snd (Execute exec task w)))"

fun task_worlds :: "('v, 'w) Registry \<Rightarrow> ('v, 'w) post \<Rightarrow> 'v Action list \<Rightarrow> 'w \<Rightarrow> 'w list" where
  "task_worlds registry Post [] w = []"
| "task_worlds registry Post (task # tasks) w =
     w # task_worlds registry Post tasks (world_after_task registry Post task w)"

section \<open>Hexadecimal encoding\<close>

lemma unat_high_nibble: "unat (drop_bit 4 (a::8 word)) = unat a div 16"
  by (simp add: unat_drop_bit_eq drop_bit_eq_div unat_div)

lemma fifteen_mask: "(15::8 word) = mask 4"
  by (simp add: mask_eq_exp_minus_1)

lemma unat_low_nibble: "unat ((a::8 word) AND 15) = unat a mod 16"
  by (simp add: fifteen_mask unsigned_take_bit_eq take_bit_eq_mod unat_mod flip: take_bit_eq_mask)

lemma high_nibble_less: "unat (drop_bit 4 (b::8 word)) < 16"
proof -
  have "unat b < 256" using unsigned_less[of b] by simp
  then show ?thesis by (simp add: unat_high_nibble less_mult_imp_div_less)
qed

lemma low_nibble_less: "unat ((b::8 word) AND 15) < 16"
  by (simp add: unat_low_nibble)

lemma byte_of_nibbles:
  fixes a b :: "8 word"
  assumes hi: "drop_bit 4 a = drop_bit 4 b" and lo: "a AND 15 = b AND 15"
  shows "a = b"
proof -
  have "unat a div 16 = unat b div 16" using hi unat_high_nibble by metis
  moreover have "unat a mod 16 = unat b mod 16" using lo unat_low_nibble by metis
  ultimately have "unat a = unat b" by (metis div_mult_mod_eq)
  then show ?thesis by (simp add: word_unat_eq_iff)
qed

lemma hexByte_inj:
  assumes h: "hexByte a = hexByte b"
  shows "a = b"
proof -
  have d: "distinct hexDigit" and l: "length hexDigit = 16" by (simp_all add: hexDigit_def)
  from h have 1: "hexDigit ! unat (drop_bit 4 a) = hexDigit ! unat (drop_bit 4 b)"
    and 2: "hexDigit ! unat (a AND 15) = hexDigit ! unat (b AND 15)"
    by (simp_all add: hexByte_def)
  have "unat (drop_bit 4 a) = unat (drop_bit 4 b)"
    using 1 d l high_nibble_less[of a] high_nibble_less[of b]
      nth_eq_iff_index_eq[of hexDigit "unat (drop_bit 4 a)" "unat (drop_bit 4 b)"]
    by (simp only:)
  then have hi: "drop_bit 4 a = drop_bit 4 b" by (rule word_unat_eq_iff [THEN iffD2])
  have "unat (a AND 15) = unat (b AND 15)"
    using 2 d l low_nibble_less[of a] low_nibble_less[of b]
      nth_eq_iff_index_eq[of hexDigit "unat (a AND 15)" "unat (b AND 15)"]
    by (simp only:)
  then have lo: "a AND 15 = b AND 15" by (rule word_unat_eq_iff [THEN iffD2])
  from hi lo show "a = b" by (rule byte_of_nibbles)
qed

lemma hexByte_length: "length (hexByte b) = 2"
  by (simp add: hexByte_def)

lemma hexByte_chars: "set (hexByte b) \<subseteq> set hexDigit"
proof -
  have l: "length hexDigit = 16" by (simp add: hexDigit_def)
  have "hexDigit ! unat (drop_bit 4 b) \<in> set hexDigit"
    using high_nibble_less[of b] l by (metis nth_mem)
  moreover have "hexDigit ! unat (b AND 15) \<in> set hexDigit"
    using low_nibble_less[of b] l by (metis nth_mem)
  ultimately show ?thesis by (simp add: hexByte_def)
qed

lemma EncodeToString_inj: "EncodeToString xs = EncodeToString ys \<Longrightarrow> xs = ys"
proof (induction xs arbitrary: ys)
  case Nil
  show ?case
  proof (cases ys)
    case Nil
    then show ?thesis by simp
  next
    case (Cons y ys')
    with Nil.prems have "[] = hexByte y @ EncodeToString ys'" by simp
    then show ?thesis by (simp add: hexByte_def)
  qed
next
  case (Cons x xs)
  show ?case
  proof (cases ys)
    case Nil
    with Cons.prems have "hexByte x @ EncodeToString xs = []" by simp
    then show ?thesis by (simp add: hexByte_def)
  next
    case (Cons y ys')
    with Cons.prems have "hexByte x @ EncodeToString xs = hexByte y @ EncodeToString ys'"
      by simp
    then have "hexByte x = hexByte y" and "EncodeToString xs = EncodeToString ys'"
      by (simp_all add: hexByte_length)
    then have "x = y" and "xs = ys'" using hexByte_inj Cons.IH by blast+
    with Cons show ?thesis by simp
  qed
qed

lemma HardwareAddr_String_no_bar: "CHR ''|'' \<notin> set (HardwareAddr_String a)"
proof -
  have "CHR ''|'' \<notin> set hexDigit" by (simp add: hexDigit_def)
  then have "CHR ''|'' \<notin> set (hexByte b)" for b using hexByte_chars by blast
  then show ?thesis by (induction a rule: HardwareAddr_String.induct) auto
qed

lemma HardwareAddr_String_inj: "HardwareAddr_String a = HardwareAddr_String b \<Longrightarrow> a = b"
proof (induction a arbitrary: b rule: HardwareAddr_String.induct)
  case 1
  show ?case
  proof (cases b rule: HardwareAddr_String.cases)
    case 1
    then show ?thesis by simp
  next
    case (2 u)
    with "1.prems" show ?thesis by (simp add: hexByte_def)
  next
    case (3 u v ws)
    with "1.prems" show ?thesis by (simp add: hexByte_def)
  qed
next
  case (2 x)
  show ?case
  proof (cases b rule: HardwareAddr_String.cases)
    case 1
    with "2.prems" show ?thesis by (simp add: hexByte_def)
  next
    case (2 u)
    with "2.prems" have "hexByte x = hexByte u" by simp
    then have "x = u" by (rule hexByte_inj)
    with 2 show ?thesis by simp
  next
    case (3 u v ws)
    with "2.prems" show ?thesis by (simp add: hexByte_def)
  qed
next
  case (3 x y zs)
  show ?case
  proof (cases b rule: HardwareAddr_String.cases)
    case 1
    with "3.prems" show ?thesis by (simp add: hexByte_def)
  next
    case (2 u)
    with "3.prems" show ?thesis by (simp add: hexByte_def)
  next
    case (3 u v ws)
    with "3.prems"
    have "hexByte x @ CHR '':'' # HardwareAddr_String (y # zs) =
          hexByte u @ CHR '':'' # HardwareAddr_String (v # ws)" by simp
    then have "hexByte x = hexByte u" and "HardwareAddr_String (y # zs) = HardwareAddr_String (v # ws)"
      by (simp_all add: hexByte_length)
    then have "x = u" and "y # zs = v # ws" using hexByte_inj "3.IH" by blast+
    with 3 show ?thesis by simp
  qed
qed

section \<open>Identity: the fingerprint and its inputs\<close>

lemma firstMAC_find:
  "firstMAC ifs =
     (case List.find usable ifs of
        None \<Rightarrow> Inl (Errorf ''no MAC address found'')
      | Some iface \<Rightarrow> Inr (HardwareAddr_String (the (HardwareAddr iface))))"
  by (induction ifs) (auto simp: usable_def)

lemma find_usable_address:
  "List.find usable ifs = Some iface \<Longrightarrow> \<exists>a. HardwareAddr iface = Some a"
  by (auto simp: find_Some_iff usable_def)

lemma getMACAddress_hardware_address:
  "getMACAddress h =
     (case hardware_address h of
        None \<Rightarrow> (case net_Interfaces h of Inl err \<Rightarrow> Inl err | Inr ifs \<Rightarrow> Inl (Errorf ''no MAC address found''))
      | Some a \<Rightarrow> Inr (HardwareAddr_String a))"
proof (cases "net_Interfaces h")
  case (Inl err)
  then show ?thesis by (simp add: getMACAddress_def hardware_address_def)
next
  case (Inr ifs)
  show ?thesis
  proof (cases "List.find usable ifs")
    case None
    with Inr show ?thesis by (simp add: getMACAddress_def hardware_address_def firstMAC_find)
  next
    case (Some iface)
    then obtain a where "HardwareAddr iface = Some a" using find_usable_address by blast
    with Inr Some show ?thesis by (simp add: getMACAddress_def hardware_address_def firstMAC_find)
  qed
qed

lemma hardware_address_None_iff: "hardware_address h = None \<longleftrightarrow> \<not> has_usable_interface h"
proof (cases "net_Interfaces h")
  case (Inl err)
  then show ?thesis by (simp add: hardware_address_def has_usable_interface_def)
next
  case (Inr ifs)
  show ?thesis
  proof (cases "List.find usable ifs")
    case None
    then have "\<not> list_ex usable ifs" by (simp add: find_None_iff list_ex_iff)
    with Inr None show ?thesis
      by (simp add: hardware_address_def has_usable_interface_def)
  next
    case (Some iface)
    then obtain a where a: "HardwareAddr iface = Some a" using find_usable_address by blast
    from Some have "usable iface" "iface \<in> set ifs" by (auto simp: find_Some_iff)
    with Inr Some a show ?thesis
      by (auto simp: hardware_address_def has_usable_interface_def list_ex_iff)
  qed
qed

lemma generateFingerprint_digest_input:
  "generateFingerprint sha256 h =
     Inr (EncodeToString (sha256 (digest_input (machine_identifier h) (hardware_address h))))"
proof -
  have mac: "getMACAddress h = Inr mac \<longleftrightarrow> (\<exists>a. hardware_address h = Some a \<and> mac = HardwareAddr_String a)" for mac
    by (cases "hardware_address h"; cases "net_Interfaces h")
       (auto simp: getMACAddress_hardware_address)
  show ?thesis
  proof (cases "getMACAddress h")
    case (Inl err)
    then have "hardware_address h = None"
      by (cases "hardware_address h") (simp_all add: getMACAddress_hardware_address)
    with Inl show ?thesis
      by (cases "machine_id_file h")
         (simp_all add: generateFingerprint_def machine_identifier_def Let_def)
  next
    case (Inr mac)
    then obtain a where "hardware_address h = Some a" "mac = HardwareAddr_String a"
      using mac by blast
    with Inr show ?thesis
      by (cases "machine_id_file h")
         (simp_all add: generateFingerprint_def machine_identifier_def Let_def)
  qed
qed

lemma split_at_first:
  "x \<notin> set xs \<Longrightarrow> x \<notin> set xs' \<Longrightarrow> xs @ x # ys = xs' @ x # ys' \<Longrightarrow> xs = xs' \<and> ys = ys'"
proof (induction xs arbitrary: xs')
  case Nil
  then show ?case by (cases xs') auto
next
  case (Cons b bs)
  show ?case
  proof (cases xs')
    case Nil
    with Cons.prems show ?thesis by auto
  next
    case (Cons c cs)
    with Cons.prems have "b = c" "x \<notin> set bs" "x \<notin> set cs" "bs @ x # ys = cs @ x # ys'" by auto
    with Cons.IH[of cs] Cons show ?thesis by simp
  qed
qed

lemma digest_input_both_inj:
  assumes "digest_input (Some m) (Some a) = digest_input (Some m') (Some a')"
  shows "m = m' \<and> a = a'"
proof -
  let ?x = "HardwareAddr_String a" and ?y = "HardwareAddr_String a'"
  from assms have eq: "m @ CHR ''|'' # ?x = m' @ CHR ''|'' # ?y" by simp
  have nx: "CHR ''|'' \<notin> set ?x" and ny: "CHR ''|'' \<notin> set ?y"
    by (rule HardwareAddr_String_no_bar)+
  from eq have "rev (m @ CHR ''|'' # ?x) = rev (m' @ CHR ''|'' # ?y)" by (rule arg_cong)
  then have "rev ?x @ CHR ''|'' # rev m = rev ?y @ CHR ''|'' # rev m'" by simp
  moreover have "CHR ''|'' \<notin> set (rev ?x)" "CHR ''|'' \<notin> set (rev ?y)" using nx ny by simp_all
  ultimately have "rev ?x = rev ?y \<and> rev m = rev m'"
    by (rule split_at_first [rotated 2])
  then show ?thesis using HardwareAddr_String_inj by auto
qed

lemma Generate_identity:
  "Generate sha256 h =
     Inr \<lparr>NodeID = uuid_New h,
          Fingerprint = EncodeToString (sha256 (digest_input (machine_identifier h) (hardware_address h))),
          Hostname = os_Hostname h, Platform = GOOS h, Arch = GOARCH h\<rparr>"
  by (simp add: Generate_def generateFingerprint_digest_input)

lemma getMACAddress_fails_iff:
  "(\<exists>err. getMACAddress h = Inl err) \<longleftrightarrow> \<not> has_usable_interface h"
proof -
  have "(\<exists>err. getMACAddress h = Inl err) \<longleftrightarrow> hardware_address h = None"
    by (cases "hardware_address h"; cases "net_Interfaces h")
       (simp_all add: getMACAddress_hardware_address)
  then show ?thesis by (simp add: hardware_address_None_iff)
qed

text \<open>
  C2, as the code has it. \<open>getMACAddress\<close> returns an error exactly when the host has no
  usable interface (no interface that is not a loopback and has a hardware address, or
  the interfaces cannot be listed). \<open>generateFingerprint\<close> drops that error and leaves
  the hardware address out of the digest, so \<open>Generate\<close> returns an identity on every
  host: the fresh UUID, the fingerprint, the host name, the platform and the
  architecture. It never returns an error.
\<close>

theorem Generate_always_returns_identity:
  "Generate sha256 h =
     Inr \<lparr>NodeID = uuid_New h,
          Fingerprint = EncodeToString (sha256 (digest_input (machine_identifier h) (hardware_address h))),
          Hostname = os_Hostname h, Platform = GOOS h, Arch = GOARCH h\<rparr>
   \<and> ((\<exists>err. getMACAddress h = Inl err) \<longleftrightarrow> \<not> has_usable_interface h)"
  using Generate_identity getMACAddress_fails_iff by blast

text \<open>
  C2 as stated fails: the host whose only interface is the loopback has no usable
  interface, and \<open>Generate\<close> returns an identity for it, whatever the digest.
\<close>

theorem Generate_without_usable_interface:
  "\<not> has_usable_interface loopback_only_host \<and>
   (\<forall>sha256. \<exists>ident. Generate sha256 loopback_only_host = Inr ident)"
proof -
  have "\<not> has_usable_interface loopback_only_host"
    by (simp add: has_usable_interface_def loopback_only_host_def usable_def)
  moreover have "\<exists>ident. Generate sha256 loopback_only_host = Inr ident" for sha256
    by (simp add: Generate_identity)
  ultimately show ?thesis by blast
qed

text \<open>
  C3, as the code has it. The fingerprint is the hexadecimal encoding of the digest of
  the stable inputs joined with the separator \<open>|\<close>: the machine identifier when there is
  one (on Linux the content of \<open>/etc/machine-id\<close> without surrounding white space, when
  the file can be read; on Windows the host name; none elsewhere), then the hardware
  address of the first usable interface, when there is one, in its colon notation. So
  hosts with the same two inputs have the same fingerprint. Collisions of the digest
  aside, two hosts have the same fingerprint exactly when these joined strings are
  equal; and for two hosts that both have a machine identifier and a hardware address,
  exactly when both inputs are equal.
\<close>

theorem generateFingerprint_of_stable_inputs:
  assumes no_collision:
    "sha256 (digest_input (machine_identifier h) (hardware_address h)) =
       sha256 (digest_input (machine_identifier h') (hardware_address h')) \<longrightarrow>
     digest_input (machine_identifier h) (hardware_address h) =
       digest_input (machine_identifier h') (hardware_address h')"
  shows
    "generateFingerprint sha256 h =
       Inr (EncodeToString (sha256 (digest_input (machine_identifier h) (hardware_address h)))) \<and>
     (machine_identifier h = machine_identifier h' \<and> hardware_address h = hardware_address h' \<longrightarrow>
        generateFingerprint sha256 h = generateFingerprint sha256 h') \<and>
     (generateFingerprint sha256 h = generateFingerprint sha256 h' \<longleftrightarrow>
        digest_input (machine_identifier h) (hardware_address h) =
          digest_input (machine_identifier h') (hardware_address h')) \<and>
     (machine_identifier h \<noteq> None \<and> hardware_address h \<noteq> None \<and>
      machine_identifier h' \<noteq> None \<and> hardware_address h' \<noteq> None \<longrightarrow>
        (generateFingerprint sha256 h = generateFingerprint sha256 h' \<longleftrightarrow>
           machine_identifier h = machine_identifier h' \<and> hardware_address h = hardware_address h'))"
proof -
  let ?d = "digest_input (machine_identifier h) (hardware_address h)"
  let ?d' = "digest_input (machine_identifier h') (hardware_address h')"
  have same: "generateFingerprint sha256 h = generateFingerprint sha256 h' \<longleftrightarrow> ?d = ?d'"
  proof
    assume "generateFingerprint sha256 h = generateFingerprint sha256 h'"
    then have "EncodeToString (sha256 ?d) = EncodeToString (sha256 ?d')"
      by (simp add: generateFingerprint_digest_input)
    then have "sha256 ?d = sha256 ?d'" by (rule EncodeToString_inj)
    with no_collision show "?d = ?d'" by blast
  next
    assume "?d = ?d'"
    then show "generateFingerprint sha256 h = generateFingerprint sha256 h'"
      by (simp add: generateFingerprint_digest_input)
  qed
  have both: "generateFingerprint sha256 h = generateFingerprint sha256 h' \<longleftrightarrow>
      machine_identifier h = machine_identifier h' \<and> hardware_address h = hardware_address h'"
    if "machine_identifier h \<noteq> None" "hardware_address h \<noteq> None"
       "machine_identifier h' \<noteq> None" "hardware_address h' \<noteq> None"
  proof -
    from that obtain m a m' a' where eqs:
      "machine_identifier h = Some m" "hardware_address h = Some a"
      "machine_identifier h' = Some m'" "hardware_address h' = Some a'"
      by blast
    have "?d = ?d' \<longleftrightarrow> m = m' \<and> a = a'"
      using digest_input_both_inj [of m a m' a'] by (auto simp: eqs)
    with same show ?thesis by (simp add: eqs)
  qed
  show ?thesis
    using same both by (simp add: generateFingerprint_digest_input)
qed

theorem generateFingerprint_of_stable_inputs_witness:
  "generateFingerprint bytes_of host_with_both =
     Inr (EncodeToString (bytes_of ''4c4c4544|02:42:ac:11:00:02'')) \<and>
   generateFingerprint bytes_of host_with_both \<noteq> generateFingerprint bytes_of host_with_both'"
proof -
  have m: "machine_identifier host_with_both = Some ''4c4c4544''"
    "machine_identifier host_with_both' = Some ''4c4c4544''"
    by (simp_all add: machine_identifier_def host_with_both_def host_with_both'_def
          TrimSpace_def asciiSpace_def)
  have a: "hardware_address host_with_both = Some [0x02, 0x42, 0xac, 0x11, 0x00, 0x02]"
    "hardware_address host_with_both' = Some [0x02, 0x42, 0xac, 0x11, 0x00, 0x03]"
    by (simp_all add: hardware_address_def host_with_both_def host_with_both'_def usable_def
          FlagLoopback_def)
  have d: "digest_input (machine_identifier host_with_both) (hardware_address host_with_both) =
        ''4c4c4544|02:42:ac:11:00:02''"
    "digest_input (machine_identifier host_with_both') (hardware_address host_with_both') =
        ''4c4c4544|02:42:ac:11:00:03''"
    by (simp_all add: m a hexByte_def hexDigit_def)
  have nc: "bytes_of (digest_input (machine_identifier host_with_both) (hardware_address host_with_both)) =
        bytes_of (digest_input (machine_identifier host_with_both') (hardware_address host_with_both')) \<longrightarrow>
      digest_input (machine_identifier host_with_both) (hardware_address host_with_both) =
        digest_input (machine_identifier host_with_both') (hardware_address host_with_both')"
    unfolding d by (simp add: bytes_of_def)
  note inst = generateFingerprint_of_stable_inputs
    [of bytes_of host_with_both host_with_both', OF nc, unfolded d]
  from inst have 1: "generateFingerprint bytes_of host_with_both =
      Inr (EncodeToString (bytes_of ''4c4c4544|02:42:ac:11:00:02''))"
    by (rule conjunct1)
  from inst have "generateFingerprint bytes_of host_with_both =
      generateFingerprint bytes_of host_with_both' \<longleftrightarrow>
      ''4c4c4544|02:42:ac:11:00:02'' = ''4c4c4544|02:42:ac:11:00:03''"
    by (elim conjE)
  then have 2: "generateFingerprint bytes_of host_with_both \<noteq>
      generateFingerprint bytes_of host_with_both'"
    by simp
  from 1 2 show ?thesis by (rule conjI)
qed

text \<open>
  C3 as stated fails: the two hosts below differ in both inputs (one has only a hardware
  address, the other only a machine identifier), and they get the same fingerprint
  whatever the digest, since the joined string is the same.
\<close>

theorem generateFingerprint_same_for_different_inputs:
  "machine_identifier host_with_mac \<noteq> machine_identifier host_with_machine_id \<and>
   hardware_address host_with_mac \<noteq> hardware_address host_with_machine_id \<and>
   (\<forall>sha256. generateFingerprint sha256 host_with_mac =
              generateFingerprint sha256 host_with_machine_id)"
proof -
  have m: "machine_identifier host_with_mac = None"
    "machine_identifier host_with_machine_id = Some ''02:42:ac:11:00:02''"
    by (simp_all add: machine_identifier_def host_with_mac_def host_with_machine_id_def
          TrimSpace_def asciiSpace_def)
  have a: "hardware_address host_with_mac = Some [0x02, 0x42, 0xac, 0x11, 0x00, 0x02]"
    "hardware_address host_with_machine_id = None"
    by (simp_all add: hardware_address_def host_with_mac_def host_with_machine_id_def usable_def
          FlagLoopback_def)
  have d: "digest_input (machine_identifier host_with_mac) (hardware_address host_with_mac) =
        ''02:42:ac:11:00:02''"
    "digest_input (machine_identifier host_with_machine_id) (hardware_address host_with_machine_id) =
        ''02:42:ac:11:00:02''"
    by (simp_all add: m a hexByte_def hexDigit_def)
  have "generateFingerprint sha256 host_with_mac = generateFingerprint sha256 host_with_machine_id"
    for sha256
    by (simp only: generateFingerprint_digest_input d)
  then show ?thesis by (simp add: m a)
qed

section \<open>Transport: status codes and mutual TLS\<close>

declare decimal.simps [simp del]

lemma digitChar_value: "n < 10 \<Longrightarrow> of_char (digitChar n) = (48 + n :: nat)"
proof -
  assume "n < 10"
  then have "n \<in> {0, 1, 2, 3, 4, 5, 6, 7, 8, 9}" by auto
  then show ?thesis by (auto simp: digitChar_def)
qed

lemma digitChar_mem: "n < 10 \<Longrightarrow> digitChar n \<in> set ''0123456789''"
  unfolding digitChar_def by (rule nth_mem) simp

lemma read_decimal_decimal: "read_decimal (decimal n) = n"
proof (induction n rule: decimal.induct)
  case (1 n)
  show ?case
  proof (cases "n < 10")
    case True
    then show ?thesis by (simp add: read_decimal_def digitChar_value decimal.simps [of n])
  next
    case False
    then have "decimal n = decimal (n div 10) @ [digitChar (n mod 10)]"
      by (simp add: decimal.simps [of n])
    then have "read_decimal (decimal n) = 10 * read_decimal (decimal (n div 10)) + (n mod 10)"
      by (simp add: read_decimal_def digitChar_value)
    with 1 False show ?thesis by simp
  qed
qed

lemma decimal_inj: "decimal m = decimal n \<Longrightarrow> m = n"
  by (metis read_decimal_decimal)

lemma decimal_chars: "set (decimal n) \<subseteq> set ''0123456789''"
proof (induction n rule: decimal.induct)
  case (1 n)
  show ?case
  proof (cases "n < 10")
    case True
    then show ?thesis using digitChar_mem [of n] by (simp add: decimal.simps [of n])
  next
    case False
    then have "decimal n = decimal (n div 10) @ [digitChar (n mod 10)]"
      by (simp add: decimal.simps [of n])
    moreover have "digitChar (n mod 10) \<in> set ''0123456789''" by (rule digitChar_mem) simp
    ultimately show ?thesis using 1 False by simp
  qed
qed

lemma decimal_not_Nil: "decimal n \<noteq> []"
  by (simp add: decimal.simps [of n])

lemma Sprintf_d_inj: "Sprintf_d i = Sprintf_d j \<Longrightarrow> i = j"
proof -
  assume eq: "Sprintf_d i = Sprintf_d j"
  have nominus: "hd (decimal n) \<noteq> CHR ''-''" for n
  proof -
    have "hd (decimal n) \<in> set (decimal n)" using decimal_not_Nil by simp
    then have "hd (decimal n) \<in> set ''0123456789''" using decimal_chars by blast
    then show ?thesis by auto
  qed
  show "i = j"
  proof (cases "i < 0"; cases "j < 0")
    assume "i < 0" "j < 0"
    with eq have "decimal (nat (- i)) = decimal (nat (- j))" by (simp add: Sprintf_d_def)
    then have "nat (- i) = nat (- j)" by (rule decimal_inj)
    with \<open>i < 0\<close> \<open>j < 0\<close> show ?thesis by simp
  next
    assume "i < 0" "\<not> j < 0"
    with eq have "CHR ''-'' # decimal (nat (- i)) = decimal (nat j)" by (simp add: Sprintf_d_def)
    then have "hd (decimal (nat j)) = CHR ''-''" by (metis list.sel(1))
    with nominus show ?thesis by blast
  next
    assume "\<not> i < 0" "j < 0"
    with eq have "decimal (nat i) = CHR ''-'' # decimal (nat (- j))" by (simp add: Sprintf_d_def)
    then have "hd (decimal (nat i)) = CHR ''-''" by (metis list.sel(1))
    with nominus show ?thesis by blast
  next
    assume "\<not> i < 0" "\<not> j < 0"
    with eq have "decimal (nat i) = decimal (nat j)" by (simp add: Sprintf_d_def)
    then have "nat i = nat j" by (rule decimal_inj)
    with \<open>\<not> i < 0\<close> \<open>\<not> j < 0\<close> show ?thesis by simp
  qed
qed

lemma Sprintf_d_no_colon: "CHR '':'' \<notin> set (Sprintf_d i)"
proof -
  have "CHR '':'' \<notin> set (decimal n)" for n using decimal_chars [of n] by auto
  then show ?thesis by (simp add: Sprintf_d_def)
qed

lemma HTTP_error_inj:
  assumes "''HTTP '' @ Sprintf_d i @ '': '' @ b = ''HTTP '' @ Sprintf_d j @ '': '' @ b'"
  shows "i = j \<and> b = b'"
proof -
  from assms have "Sprintf_d i @ CHR '':'' # (CHR '' '' # b) = Sprintf_d j @ CHR '':'' # (CHR '' '' # b')"
    by simp
  then have "Sprintf_d i = Sprintf_d j \<and> CHR '' '' # b = CHR '' '' # b'"
    by (rule split_at_first [OF Sprintf_d_no_colon Sprintf_d_no_colon])
  then show ?thesis using Sprintf_d_inj by simp
qed

text \<open>
  C4, as the code has it. \<open>DecodeJSON\<close> turns a response with a status code of 400 or
  more into an error whose message holds the status code and the body, and never into a
  success; the status code and the body can be read back from the error, so two such
  responses that differ in either give different errors. A response with a status code
  below 400, be it 2xx or not, goes to the JSON decoder, and what the decoder returns is
  what the caller gets.
\<close>

theorem DecodeJSON_by_status:
  "(StatusCode resp \<ge> 400 \<longrightarrow>
      DecodeJSON decode resp =
        Inl (Errorf (''HTTP '' @ Sprintf_d (StatusCode resp) @ '': '' @ Body resp))) \<and>
   (StatusCode resp \<ge> 400 \<and> StatusCode resp' \<ge> 400 \<and>
    DecodeJSON decode resp = DecodeJSON decode' resp' \<longrightarrow>
      StatusCode resp = StatusCode resp' \<and> Body resp = Body resp') \<and>
   (StatusCode resp < 400 \<longrightarrow> DecodeJSON decode resp = decode (Body resp))"
proof -
  have "StatusCode resp = StatusCode resp' \<and> Body resp = Body resp'"
    if "StatusCode resp \<ge> 400" "StatusCode resp' \<ge> 400"
      "DecodeJSON decode resp = DecodeJSON decode' resp'"
  proof -
    from that have "''HTTP '' @ Sprintf_d (StatusCode resp) @ '': '' @ Body resp =
        ''HTTP '' @ Sprintf_d (StatusCode resp') @ '': '' @ Body resp'"
      by (simp add: DecodeJSON_def)
    then show ?thesis by (rule HTTP_error_inj)
  qed
  then show ?thesis by (auto simp: DecodeJSON_def)
qed

theorem DecodeJSON_by_status_witness:
  "DecodeJSON decode_enroll \<lparr>StatusCode = 503, Body = ''try later''\<rparr> =
     Inl (Errorf ''HTTP 503: try later'') \<and>
   DecodeJSON decode_enroll \<lparr>StatusCode = 503, Body = ''try later''\<rparr> \<noteq>
     DecodeJSON decode_enroll \<lparr>StatusCode = 500, Body = ''try later''\<rparr> \<and>
   DecodeJSON decode_enroll \<lparr>StatusCode = 200, Body = body_pending\<rparr> = Inr pending_response"
proof -
  have d: "Sprintf_d 503 = ''503''"
    by (simp add: Sprintf_d_def digitChar_def decimal.simps)
  have e: "decode_enroll body_pending = Inr pending_response"
    by (simp add: decode_enroll_def body_pending_def body_approved_bare_def
          body_approved_no_ca_def body_approved_def body_rejected_def)
  note a = DecodeJSON_by_status [of "\<lparr>StatusCode = 503, Body = ''try later''\<rparr>" decode_enroll
      "\<lparr>StatusCode = 500, Body = ''try later''\<rparr>" decode_enroll]
  note b = DecodeJSON_by_status [of "\<lparr>StatusCode = 200, Body = body_pending\<rparr>" decode_enroll]
  from a have 1: "DecodeJSON decode_enroll \<lparr>StatusCode = 503, Body = ''try later''\<rparr> =
      Inl (Errorf ''HTTP 503: try later'')"
    by (simp add: d)
  from a have 2: "DecodeJSON decode_enroll \<lparr>StatusCode = 503, Body = ''try later''\<rparr> \<noteq>
      DecodeJSON decode_enroll \<lparr>StatusCode = 500, Body = ''try later''\<rparr>"
    by auto
  from b have 3: "DecodeJSON decode_enroll \<lparr>StatusCode = 200, Body = body_pending\<rparr> =
      Inr pending_response"
    by (simp add: e)
  from 1 2 3 show ?thesis by blast
qed

text \<open>
  C4 as stated fails: 304 is not a 2xx status code, and a response with this code whose
  body is the JSON document \<open>[]\<close> is decoded and handed to the caller as the empty list
  of actions.
\<close>

theorem DecodeJSON_accepts_304:
  "DecodeJSON decode_tasks \<lparr>StatusCode = 304, Body = ''[]''\<rparr> = Inr []"
  by (simp add: DecodeJSON_def decode_tasks_def)

text \<open>
  C5. \<open>EnableMTLS\<close> returns an error when the key pair cannot be loaded or the CA file
  cannot be read, and \<open>main\<close> ends with a fatal error then. But once the key pair is
  loaded and the CA file is read, it returns no error and switches the client to mutual
  TLS with the certificates the parser found in the CA file as root CAs, also when the
  parser found none: the flag \<open>AppendCertsFromPEM\<close> returns is dropped.
\<close>

theorem EnableMTLS_drops_parse_flag:
  assumes "LoadX509KeyPair X509KeyPair os certPath keyPath = Inr cert"
    and "ReadFile os caPath = Inr caCert"
  shows "EnableMTLS X509KeyPair ParseCerts os c certPath keyPath caPath =
     (None, c\<lparr>httpClient_Transport := Some \<lparr>Certificates = [cert], RootCAs = ParseCerts caCert\<rparr>,
              useMTLS := True\<rparr>)"
  using assms by (simp add: EnableMTLS_def AppendCertsFromPEM_def)

theorem EnableMTLS_drops_parse_flag_witness:
  "snd (AppendCertsFromPEM (x509_ParseCerts lib0) [] []) = False \<and>
   EnableMTLS (tls_X509KeyPair lib0) (x509_ParseCerts lib0) os_empty_ca (NewClient ''https://control.example'')
       ''agent.crt'' ''agent.key'' ''ca.crt'' =
     (None, \<lparr>baseURL = ''https://control.example'',
             httpClient_Transport = Some \<lparr>Certificates = [(''CERTIFICATE PEM'', ''KEY PEM'')], RootCAs = []\<rparr>,
             useMTLS = True\<rparr>)"
proof -
  have kp: "LoadX509KeyPair (tls_X509KeyPair lib0) os_empty_ca ''agent.crt'' ''agent.key'' =
      Inr (''CERTIFICATE PEM'', ''KEY PEM'')"
    by (simp add: LoadX509KeyPair_def ReadFile_def os_empty_ca_def lib0_def)
  have ca: "ReadFile os_empty_ca ''ca.crt'' = Inr []"
    by (simp add: ReadFile_def os_empty_ca_def)
  show ?thesis
    using EnableMTLS_drops_parse_flag [OF kp ca, of "x509_ParseCerts lib0" "NewClient ''https://control.example''"]
    by (simp add: AppendCertsFromPEM_def lib0_def NewClient_def)
qed

section \<open>The registry\<close>

lemma Register_lookup:
  "executors (Register exec r) t =
     (if t \<in> set (SupportedActions exec) then Some exec else executors r t)"
proof -
  have "fold (\<lambda>actionType m. m(actionType \<mapsto> exec)) ts m t =
      (if t \<in> set ts then Some exec else m t)" for ts and m :: "string \<rightharpoonup> ('a, 'b) Executor"
    by (induction ts arbitrary: m) auto
  then show ?thesis by (simp add: Register_def)
qed

text \<open>
  C6. For an action whose type has no executor in the registry, \<open>Execute\<close> of the
  registry returns the result with the identifier of the action, \<open>success = false\<close> and
  the error \<open>unsupported action type: \<close> followed by the type; the run is left as it
  was, so no executor was called and the world was not touched.
\<close>

theorem Registry_Execute_unsupported:
  assumes "executors r (Type action) = None"
  shows "Registry_Execute r action s =
     (\<lparr>ActionID = ID action, Success = False, Output = [],
       Error = ''unsupported action type: '' @ Type action, Data = Map.empty\<rparr>, s)"
  using assms by (simp add: Registry_Execute_def)

theorem Registry_Execute_unsupported_witness:
  "Registry_Execute registry0 shell_action \<lparr>world = 0, calls = []\<rparr> =
   (\<lparr>ActionID = ''a-17'', Success = False, Output = [],
     Error = ''unsupported action type: shell.exec'', Data = Map.empty\<rparr>,
    \<lparr>world = 0, calls = []\<rparr>)"
proof -
  have n: "executors registry0 (Type shell_action) = None"
    by (simp add: registry0_def Register_lookup NewRegistry_def service_executor_def
          shell_action_def)
  show ?thesis
    using Registry_Execute_unsupported [OF n, of "\<lparr>world = 0, calls = []\<rparr>"]
    by (simp add: shell_action_def)
qed

section \<open>Enrollment polling\<close>

lemma WaitForApproval_Tick_polling:
  assumes "keeps_polling decode (Tick t posted)"
  shows "WaitForApproval decode c (Tick t posted # evs) =
     (fst (WaitForApproval decode c evs),
      (t, ''/api/v1/agent/enroll'', enrollRequest c) # snd (WaitForApproval decode c evs))"
  using assms by (cases "Enroll decode posted") (simp_all add: keeps_polling_def Let_def)

lemma WaitForApproval_Tick_decides:
  assumes "decides decode (Tick t posted) r"
  shows "WaitForApproval decode c (Tick t posted # evs) =
     (Some r, [(t, ''/api/v1/agent/enroll'', enrollRequest c)])"
  using assms by (cases "Enroll decode posted") (auto simp: decides_def Let_def)

declare WaitForApproval.simps(3) [simp del]

lemma polling_or_decides:
  "keeps_polling decode ev \<or> (\<exists>r. decides decode ev r)"
  by (cases ev) (auto simp: keeps_polling_def decides_def split: sum.splits)

lemma WaitForApproval_after_polling:
  assumes "list_all (keeps_polling decode) pre"
  shows "fst (WaitForApproval decode c (pre @ evs)) = fst (WaitForApproval decode c evs)"
  using assms
proof (induction pre)
  case Nil
  then show ?case by simp
next
  case (Cons ev pre)
  then obtain t posted where ev: "ev = Tick t posted"
    by (cases ev) (auto simp: keeps_polling_def)
  with Cons show ?case by (simp add: WaitForApproval_Tick_polling)
qed

lemma WaitForApproval_decided:
  assumes "list_all (keeps_polling decode) pre" and "decides decode ev r"
  shows "fst (WaitForApproval decode c (pre @ ev # rest)) = Some r"
proof -
  have "fst (WaitForApproval decode c (ev # rest)) = Some r"
  proof (cases ev)
    case CtxDone
    with assms(2) show ?thesis by (simp add: decides_def)
  next
    case (Tick t posted)
    with assms(2) show ?thesis by (simp add: WaitForApproval_Tick_decides)
  qed
  with assms(1) show ?thesis by (simp add: WaitForApproval_after_polling)
qed

lemma WaitForApproval_Some:
  assumes "fst (WaitForApproval decode c evs) = Some r"
  shows "\<exists>pre ev rest. evs = pre @ ev # rest \<and> list_all (keeps_polling decode) pre \<and>
           decides decode ev r"
  using assms
proof (induction evs)
  case Nil
  then show ?case by simp
next
  case (Cons ev evs)
  show ?case
  proof (cases "keeps_polling decode ev")
    case True
    then obtain t posted where ev: "ev = Tick t posted"
      by (cases ev) (auto simp: keeps_polling_def)
    with True Cons.prems have "fst (WaitForApproval decode c evs) = Some r"
      by (simp add: WaitForApproval_Tick_polling)
    then obtain pre ev' rest where
      "evs = pre @ ev' # rest" "list_all (keeps_polling decode) pre" "decides decode ev' r"
      using Cons.IH by blast
    with True have "ev # evs = (ev # pre) @ ev' # rest \<and>
        list_all (keeps_polling decode) (ev # pre) \<and> decides decode ev' r"
      by simp
    then show ?thesis by blast
  next
    case False
    then obtain r' where r': "decides decode ev r'" using polling_or_decides by blast
    then have "fst (WaitForApproval decode c ([] @ ev # evs)) = Some r'"
      by (intro WaitForApproval_decided) simp_all
    with Cons.prems have "r' = r" by simp
    with r' have "ev # evs = [] @ ev # evs \<and> list_all (keeps_polling decode) [] \<and>
        decides decode ev r"
      by simp
    then show ?thesis by blast
  qed
qed

lemma WaitForApproval_Some_iff:
  "fst (WaitForApproval decode c evs) = Some r \<longleftrightarrow>
     (\<exists>pre ev rest. evs = pre @ ev # rest \<and> list_all (keeps_polling decode) pre \<and>
        decides decode ev r)"
  using WaitForApproval_Some WaitForApproval_decided by blast

lemma WaitForApproval_None_iff:
  "fst (WaitForApproval decode c evs) = None \<longleftrightarrow> list_all (keeps_polling decode) evs"
proof
  assume n: "fst (WaitForApproval decode c evs) = None"
  show "list_all (keeps_polling decode) evs"
    using n
  proof (induction evs)
    case Nil
    then show ?case by simp
  next
    case (Cons ev evs)
    have kp: "keeps_polling decode ev"
    proof (rule ccontr)
      assume "\<not> keeps_polling decode ev"
      then obtain r where "decides decode ev r" using polling_or_decides by blast
      then have "fst (WaitForApproval decode c ([] @ ev # evs)) = Some r"
        by (intro WaitForApproval_decided) simp_all
      with Cons.prems show False by simp
    qed
    then obtain t posted where ev: "ev = Tick t posted"
      by (cases ev) (auto simp: keeps_polling_def)
    with kp Cons.prems have "fst (WaitForApproval decode c evs) = None"
      by (simp add: WaitForApproval_Tick_polling)
    with Cons.IH kp show ?case by simp
  qed
next
  assume "list_all (keeps_polling decode) evs"
  then have "fst (WaitForApproval decode c (evs @ [])) = fst (WaitForApproval decode c [])"
    by (rule WaitForApproval_after_polling)
  then show "fst (WaitForApproval decode c evs) = None" by simp
qed

lemma decides_error:
  "decides decode ev (Inl err) \<longleftrightarrow>
     ev = CtxDone \<and> err = Canceled \<or>
     (\<exists>t posted resp. ev = Tick t posted \<and> Enroll decode posted = Inr resp \<and>
        Status resp = ''rejected'' \<and> err = Errorf (''enrollment rejected: '' @ Message resp))"
  by (cases ev) (auto simp: decides_def split: sum.splits)

lemma decides_success:
  "decides decode ev (Inr resp) \<longleftrightarrow>
     (\<exists>t posted. ev = Tick t posted \<and> Enroll decode posted = Inr resp \<and>
        Status resp = ''approved'')"
  by (cases ev) (auto simp: decides_def split: sum.splits)

lemma decode_enroll_bodies:
  "decode_enroll body_approved_bare = Inr approved_without_certificates"
  "decode_enroll body_approved_no_ca = Inr approved_without_ca"
  "decode_enroll body_approved = Inr approved_with_certificates"
  "decode_enroll body_rejected = Inr rejected_response"
  "decode_enroll body_pending = Inr pending_response"
  by (simp_all add: decode_enroll_def body_approved_bare_def body_approved_no_ca_def
        body_approved_def body_rejected_def body_pending_def)

lemma Enroll_bodies:
  "Enroll decode_enroll (Inr \<lparr>StatusCode = 200, Body = body_approved_bare\<rparr>) =
     Inr approved_without_certificates"
  "Enroll decode_enroll (Inr \<lparr>StatusCode = 200, Body = body_approved_no_ca\<rparr>) =
     Inr approved_without_ca"
  "Enroll decode_enroll (Inr \<lparr>StatusCode = 200, Body = body_approved\<rparr>) =
     Inr approved_with_certificates"
  "Enroll decode_enroll (Inr \<lparr>StatusCode = 200, Body = body_rejected\<rparr>) = Inr rejected_response"
  "Enroll decode_enroll (Inr \<lparr>StatusCode = 200, Body = body_pending\<rparr>) = Inr pending_response"
  by (simp_all add: Enroll_def DecodeJSON_def decode_enroll_bodies)

lemma Enroll_transport_error:
  "Enroll decode (Inl err) = Inl (Errorf (''enrollment request failed: '' @ ErrorString err))"
  by (simp add: Enroll_def)

text \<open>
  C7. \<open>WaitForApproval\<close> returns an error exactly when, after events that all keep it
  polling, either the context is done (the error of the context) or a request is
  answered with the status \<open>rejected\<close> (the error \<open>enrollment rejected: \<close> with the
  message of the control plane). It returns a response, with no error, exactly when
  after such events a request is answered with the status \<open>approved\<close>. It has not
  returned exactly when every event so far keeps it polling; a request that fails in
  the transport and an answer with the status \<open>pending\<close> are such events.
\<close>

theorem WaitForApproval_returns:
  "(fst (WaitForApproval decode c evs) = Some (Inl err) \<longleftrightarrow>
      (\<exists>pre ev rest. evs = pre @ ev # rest \<and> list_all (keeps_polling decode) pre \<and>
         (ev = CtxDone \<and> err = Canceled \<or>
          (\<exists>t posted resp. ev = Tick t posted \<and> Enroll decode posted = Inr resp \<and>
             Status resp = ''rejected'' \<and>
             err = Errorf (''enrollment rejected: '' @ Message resp))))) \<and>
   (fst (WaitForApproval decode c evs) = Some (Inr approved) \<longleftrightarrow>
      (\<exists>pre t posted rest. evs = pre @ Tick t posted # rest \<and>
         list_all (keeps_polling decode) pre \<and>
         Enroll decode posted = Inr approved \<and> Status approved = ''approved'')) \<and>
   (fst (WaitForApproval decode c evs) = None \<longleftrightarrow> list_all (keeps_polling decode) evs) \<and>
   keeps_polling decode (Tick t' (Inl transport_error)) \<and>
   (Enroll decode posted' = Inr pending \<and> Status pending = ''pending'' \<longrightarrow>
      keeps_polling decode (Tick t' posted'))"
proof -
  have 1: "fst (WaitForApproval decode c evs) = Some (Inl err) \<longleftrightarrow>
      (\<exists>pre ev rest. evs = pre @ ev # rest \<and> list_all (keeps_polling decode) pre \<and>
         (ev = CtxDone \<and> err = Canceled \<or>
          (\<exists>t posted resp. ev = Tick t posted \<and> Enroll decode posted = Inr resp \<and>
             Status resp = ''rejected'' \<and>
             err = Errorf (''enrollment rejected: '' @ Message resp))))"
    by (simp only: WaitForApproval_Some_iff decides_error)
  have 2: "fst (WaitForApproval decode c evs) = Some (Inr approved) \<longleftrightarrow>
      (\<exists>pre t posted rest. evs = pre @ Tick t posted # rest \<and>
         list_all (keeps_polling decode) pre \<and>
         Enroll decode posted = Inr approved \<and> Status approved = ''approved'')"
    unfolding WaitForApproval_Some_iff decides_success by blast
  have 3: "keeps_polling decode (Tick t' (Inl transport_error))"
    by (simp add: keeps_polling_def Enroll_transport_error)
  have 4: "Enroll decode posted' = Inr pending \<and> Status pending = ''pending'' \<longrightarrow>
      keeps_polling decode (Tick t' posted')"
    by (simp add: keeps_polling_def)
  show ?thesis
    by (intro conjI) (rule 1, rule 2, rule WaitForApproval_None_iff, rule 3, rule 4)
qed

theorem WaitForApproval_returns_witness:
  "fst (WaitForApproval decode_enroll enroll_client0 events_rejected) =
     Some (Inl (Errorf ''enrollment rejected: unknown token'')) \<and>
   fst (WaitForApproval decode_enroll enroll_client0 (take 2 events_rejected)) = None \<and>
   fst (WaitForApproval decode_enroll enroll_client0 events_approved) =
     Some (Inr approved_with_certificates) \<and>
   fst (WaitForApproval decode_enroll enroll_client0 (CtxDone # events_approved)) =
     Some (Inl Canceled)"
proof -
  have p1: "keeps_polling decode_enroll (Tick ten_seconds (Inl (External ''dial tcp: connection refused'')))"
    and p2: "keeps_polling decode_enroll (Tick t (Inr \<lparr>StatusCode = 200, Body = body_pending\<rparr>))" for t
    by (simp_all add: keeps_polling_def Enroll_bodies Enroll_transport_error pending_response_def)
  note inst = WaitForApproval_returns [of decode_enroll enroll_client0]
  have "fst (WaitForApproval decode_enroll enroll_client0 events_rejected) =
      Some (Inl (Errorf (''enrollment rejected: '' @ Message rejected_response)))"
    apply (rule inst [of events_rejected, THEN conjunct1, THEN iffD2])
    apply (rule exI [of _ "take 2 events_rejected"])
    apply (rule exI [of _ "Tick (3 * ten_seconds) (Inr \<lparr>StatusCode = 200, Body = body_rejected\<rparr>)"])
    apply (rule exI [of _ "[]"])
    apply (simp add: events_rejected_def p1 p2 Enroll_bodies rejected_response_def)
    done
  moreover have "fst (WaitForApproval decode_enroll enroll_client0 (take 2 events_rejected)) = None"
    apply (rule inst [of "take 2 events_rejected", THEN conjunct2, THEN conjunct2, THEN conjunct1, THEN iffD2])
    apply (simp add: events_rejected_def p1 p2)
    done
  moreover have "fst (WaitForApproval decode_enroll enroll_client0 events_approved) =
      Some (Inr approved_with_certificates)"
    apply (rule inst [of events_approved _ approved_with_certificates, THEN conjunct2, THEN conjunct1, THEN iffD2])
    apply (rule exI [of _ "take 1 events_approved"])
    apply (rule exI [of _ "2 * ten_seconds"])
    apply (rule exI [of _ "Inr \<lparr>StatusCode = 200, Body = body_approved\<rparr>"])
    apply (rule exI [of _ "[]"])
    apply (simp add: events_approved_def p2 Enroll_bodies approved_with_certificates_def)
    done
  moreover have "fst (WaitForApproval decode_enroll enroll_client0 (CtxDone # events_approved)) =
      Some (Inl Canceled)"
    apply (rule inst [of "CtxDone # events_approved" Canceled, THEN conjunct1, THEN iffD2])
    apply (rule exI [of _ "[]"])
    apply (rule exI [of _ "CtxDone"])
    apply (rule exI [of _ "events_approved"])
    apply simp
    done
  ultimately show ?thesis by (simp add: rejected_response_def)
qed

section \<open>The enrollment flow of main\<close>

lemma SaveCertificates_writable:
  assumes "\<not> read_only os certPath" "\<not> read_only os caPath" "\<not> read_only os keyPath"
  shows "SaveCertificates certPEM caPEM certPath caPath keyPath keyPEM os =
     (None, os\<lparr>files := (files os)(certPath \<mapsto> certPEM, caPath \<mapsto> caPEM, keyPath \<mapsto> keyPEM)\<rparr>)"
  using assms by (simp add: SaveCertificates_def WriteFile_def)

lemma enrollmentFlow_approved:
  assumes waited: "fst (WaitForApproval (json_Decode lib) (NewEnrollClient (BackendURL cfg) (EnrollToken cfg) ident) evs) = Some (Inr resp)"
    and token: "EnrollToken cfg \<noteq> []"
    and key: "rsa_GenerateKey lib = Inr key"
    and csr: "x509_CreateCertificateRequest lib (NodeID ident) (Hostname ident) key = Inr csr"
    and writable: "\<not> read_only os (CertPath cfg)" "\<not> read_only os (CACertPath cfg)"
      "\<not> read_only os (KeyPath cfg)"
  shows "fst (enrollmentFlow lib cfg ident evs os) =
     FlowCompleted (os\<lparr>files := (files os)(CertPath cfg \<mapsto> Certificate resp,
        CACertPath cfg \<mapsto> CACert resp, KeyPath cfg \<mapsto> pem_EncodeToMemory lib key)\<rparr>)"
proof -
  obtain reqs where w: "WaitForApproval (json_Decode lib)
      (NewEnrollClient (BackendURL cfg) (EnrollToken cfg) ident) evs = (Some (Inr resp), reqs)"
    using waited by (metis prod.collapse)
  have g: "GenerateCSR (rsa_GenerateKey lib) (x509_CreateCertificateRequest lib) ident = Inr (key, csr)"
    by (simp add: GenerateCSR_def key csr)
  show ?thesis
    by (simp add: enrollmentFlow_def token w g SaveCertificates_writable [OF writable])
qed

text \<open>
  C1, as the code has it. \<open>WaitForApproval\<close> returns the first response with the
  status \<open>approved\<close> as a success, whatever its certificate and CA certificate fields
  hold: it looks at the status only. The enrollment flow of \<open>main\<close> then writes these
  two fields as they are, and the private key, to the configured paths and reports the
  enrollment as completed, provided the token is set, the key is generated and the three
  paths can be written. Nothing checks that the certificate material is not empty.
\<close>

theorem approved_is_success_whatever_the_certificates:
  assumes "list_all (keeps_polling decode) pre"
    and "Enroll decode posted = Inr resp"
    and "Status resp = ''approved''"
  shows "fst (WaitForApproval decode c (pre @ Tick t posted # rest)) = Some (Inr resp) \<and>
     (json_Decode lib = decode \<and> EnrollToken cfg \<noteq> [] \<and> rsa_GenerateKey lib = Inr key \<and>
      x509_CreateCertificateRequest lib (NodeID ident) (Hostname ident) key = Inr csr \<and>
      \<not> read_only os (CertPath cfg) \<and> \<not> read_only os (CACertPath cfg) \<and>
      \<not> read_only os (KeyPath cfg) \<longrightarrow>
        fst (enrollmentFlow lib cfg ident (pre @ Tick t posted # rest) os) =
          FlowCompleted (os\<lparr>files := (files os)(CertPath cfg \<mapsto> Certificate resp,
            CACertPath cfg \<mapsto> CACert resp, KeyPath cfg \<mapsto> pem_EncodeToMemory lib key)\<rparr>))"
proof -
  have d: "decides decode (Tick t posted) (Inr resp)"
    using assms(2,3) by (simp add: decides_def)
  have w: "fst (WaitForApproval decode c (pre @ Tick t posted # rest)) = Some (Inr resp)" for c
    using assms(1) d by (rule WaitForApproval_decided)
  show ?thesis
    using w by (auto intro: enrollmentFlow_approved)
qed

theorem approved_is_success_whatever_the_certificates_witness:
  "fst (WaitForApproval decode_enroll enroll_client0 events_approved) =
     Some (Inr approved_with_certificates) \<and>
   fst (enrollmentFlow lib0 cfg0 ident0 events_approved os_empty) =
     FlowCompleted
       \<lparr>files = [''agent.crt'' \<mapsto> ''CERTIFICATE PEM'', ''ca.crt'' \<mapsto> ''CA PEM'',
                 ''agent.key'' \<mapsto> ''KEY PEM''],
        read_only = (\<lambda>name. False)\<rparr>"
proof -
  have pre: "list_all (keeps_polling decode_enroll)
      [Tick ten_seconds (Inr \<lparr>StatusCode = 200, Body = body_pending\<rparr>)]"
    by (simp add: keeps_polling_def Enroll_bodies pending_response_def)
  have st: "Status approved_with_certificates = ''approved''"
    by (simp add: approved_with_certificates_def)
  note inst = approved_is_success_whatever_the_certificates
    [OF pre Enroll_bodies(3) st, of enroll_client0 "2 * ten_seconds" "[]" lib0 cfg0 "''KEY''"
      ident0 "''CSR''" os_empty]
  from inst show ?thesis
    by (simp add: events_approved_def lib0_def cfg0_def os_empty_def approved_with_certificates_def)
qed

text \<open>
  C1 as stated fails. When the control plane answers the first request with the status
  \<open>approved\<close> and no certificate material, \<open>WaitForApproval\<close> returns this response as
  a success, and the enrollment flow writes an empty certificate and an empty CA
  certificate and completes. When the answer holds a certificate and no CA certificate,
  \<open>WaitForApproval\<close> returns it as a success as well.
\<close>

theorem approved_without_certificates_accepted:
  "Certificate approved_without_certificates = [] \<and>
   CACert approved_without_certificates = [] \<and>
   fst (WaitForApproval decode_enroll enroll_client0 events_approved_bare) =
     Some (Inr approved_without_certificates) \<and>
   fst (enrollmentFlow lib0 cfg0 ident0 events_approved_bare os_empty) =
     FlowCompleted
       \<lparr>files = [''agent.crt'' \<mapsto> [], ''ca.crt'' \<mapsto> [], ''agent.key'' \<mapsto> ''KEY PEM''],
        read_only = (\<lambda>name. False)\<rparr> \<and>
   CACert approved_without_ca = [] \<and>
   fst (WaitForApproval decode_enroll enroll_client0 events_approved_no_ca) =
     Some (Inr approved_without_ca)"
proof -
  have d: "decides decode_enroll
      (Tick ten_seconds (Inr \<lparr>StatusCode = 200, Body = body_approved_bare\<rparr>))
      (Inr approved_without_certificates)"
    by (simp add: decides_def Enroll_bodies approved_without_certificates_def)
  have w: "fst (WaitForApproval decode_enroll c events_approved_bare) =
      Some (Inr approved_without_certificates)" for c
    using WaitForApproval_decided [of decode_enroll "[]", OF _ d, of c "[]"]
    by (simp add: events_approved_bare_def)
  have f: "fst (enrollmentFlow lib0 cfg0 ident0 events_approved_bare os_empty) =
      FlowCompleted (os_empty\<lparr>files := (files os_empty)(CertPath cfg0 \<mapsto> Certificate approved_without_certificates,
        CACertPath cfg0 \<mapsto> CACert approved_without_certificates,
        KeyPath cfg0 \<mapsto> pem_EncodeToMemory lib0 ''KEY'')\<rparr>)"
    by (rule enrollmentFlow_approved [where csr = "''CSR''"])
       (simp_all add: w lib0_def cfg0_def os_empty_def)
  have d': "decides decode_enroll
      (Tick ten_seconds (Inr \<lparr>StatusCode = 200, Body = body_approved_no_ca\<rparr>))
      (Inr approved_without_ca)"
    by (simp add: decides_def Enroll_bodies approved_without_ca_def)
  have w': "fst (WaitForApproval decode_enroll c events_approved_no_ca) =
      Some (Inr approved_without_ca)" for c
    by (simp add: events_approved_no_ca_def WaitForApproval_Tick_decides [OF d'])
  from f w w' show ?thesis
    by (simp add: lib0_def cfg0_def os_empty_def approved_without_certificates_def
          approved_without_ca_def)
qed

section \<open>When the enrollment requests are posted\<close>

lemma requests_follow_ticks:
  "\<exists>n. map fst (snd (WaitForApproval decode c evs)) = take n (tick_times evs)"
proof (induction evs)
  case Nil
  then show ?case by simp
next
  case (Cons ev evs)
  show ?case
  proof (cases ev)
    case CtxDone
    then have "map fst (snd (WaitForApproval decode c (ev # evs))) = take 0 (tick_times (ev # evs))"
      by simp
    then show ?thesis by blast
  next
    case (Tick t posted)
    show ?thesis
    proof (cases "keeps_polling decode ev")
      case True
      from Cons.IH obtain n where
        "map fst (snd (WaitForApproval decode c evs)) = take n (tick_times evs)" by blast
      with True Tick
      have "map fst (snd (WaitForApproval decode c (ev # evs))) = take (Suc n) (tick_times (ev # evs))"
        by (simp add: WaitForApproval_Tick_polling)
      then show ?thesis by blast
    next
      case False
      then obtain r where "decides decode ev r" using polling_or_decides by blast
      with Tick
      have "map fst (snd (WaitForApproval decode c (ev # evs))) = take (Suc 0) (tick_times (ev # evs))"
        by (simp add: WaitForApproval_Tick_decides)
      then show ?thesis by blast
    qed
  qed
qed

lemma requests_released_after:
  assumes "list_all (sent_after interval) evs"
  shows "list_all (released_after interval) (snd (WaitForApproval decode c evs))"
  using assms
proof (induction evs)
  case Nil
  then show ?case by simp
next
  case (Cons ev evs)
  show ?case
  proof (cases ev)
    case CtxDone
    then show ?thesis by simp
  next
    case (Tick t posted)
    with Cons.prems have t: "interval \<le> t" by (simp add: sent_after_def)
    show ?thesis
    proof (cases "keeps_polling decode ev")
      case True
      with Cons Tick t show ?thesis
        by (simp add: WaitForApproval_Tick_polling released_after_def)
    next
      case False
      then obtain r where "decides decode ev r" using polling_or_decides by blast
      with Tick t show ?thesis
        by (simp add: WaitForApproval_Tick_decides released_after_def)
    qed
  qed
qed

lemma requests_startTransport: "requests (startTransport lib cfg reqs os) = reqs"
  by (simp add: startTransport_def split: prod.splits option.splits)

lemma enrollmentFlow_requests:
  "snd (enrollmentFlow lib cfg ident evs os) =
     (if EnrollToken cfg = [] then []
      else snd (WaitForApproval (json_Decode lib)
             (NewEnrollClient (BackendURL cfg) (EnrollToken cfg) ident) evs))"
  by (simp add: enrollmentFlow_def split: prod.splits option.splits sum.splits)

lemma main_unfolded:
  "main lib h cfg os evs =
     (if enrolled cfg os then startTransport lib cfg [] os
      else
        (case enrollmentFlow lib cfg
                \<lparr>NodeID = uuid_New h,
                 Fingerprint = EncodeToString (sha256_Sum lib
                   (digest_input (machine_identifier h) (hardware_address h))),
                 Hostname = os_Hostname h, Platform = GOOS h, Arch = GOARCH h\<rparr> evs os of
           (FlowFatal m os1, reqs) \<Rightarrow> \<lparr>ending = Fatal m, requests = reqs, os_after = os1\<rparr>
         | (FlowWaiting, reqs) \<Rightarrow> \<lparr>ending = Waiting, requests = reqs, os_after = os\<rparr>
         | (FlowCompleted os1, reqs) \<Rightarrow> startTransport lib cfg reqs os1))"
  by (simp add: main_def Generate_identity)

lemma main_requests:
  "requests (main lib h cfg os evs) =
     (if enrolled cfg os \<or> EnrollToken cfg = [] then []
      else snd (WaitForApproval (json_Decode lib)
             (NewEnrollClient (BackendURL cfg) (EnrollToken cfg)
                \<lparr>NodeID = uuid_New h,
                 Fingerprint = EncodeToString (sha256_Sum lib
                   (digest_input (machine_identifier h) (hardware_address h))),
                 Hostname = os_Hostname h, Platform = GOOS h, Arch = GOARCH h\<rparr>) evs))"
proof -
  let ?ident = "\<lparr>NodeID = uuid_New h,
      Fingerprint = EncodeToString (sha256_Sum lib
        (digest_input (machine_identifier h) (hardware_address h))),
      Hostname = os_Hostname h, Platform = GOOS h, Arch = GOARCH h\<rparr>"
  have "requests (main lib h cfg os evs) =
      (if enrolled cfg os then [] else snd (enrollmentFlow lib cfg ?ident evs os))"
    by (cases "enrollmentFlow lib cfg ?ident evs os"; cases "fst (enrollmentFlow lib cfg ?ident evs os)")
       (simp_all add: main_unfolded requests_startTransport)
  then show ?thesis by (simp add: enrollmentFlow_requests)
qed

text \<open>
  C10. Every enrollment request of \<open>WaitForApproval\<close> is posted on a tick of its ticker:
  the times of its requests are the times of the first ticks it received, one request
  per tick, and none before the first tick. So when the ticker keeps its contract and
  sends no tick before one interval has passed since \<open>WaitForApproval\<close> was entered, no
  request is posted before that. The same holds for all the enrollment requests of the
  start of \<open>main\<close>, which posts none outside \<open>WaitForApproval\<close>.
\<close>

theorem no_request_before_the_first_tick:
  assumes "list_all (sent_after interval) evs"
  shows "(\<exists>n. map fst (snd (WaitForApproval decode c evs)) = take n (tick_times evs)) \<and>
     list_all (released_after interval) (snd (WaitForApproval decode c evs)) \<and>
     list_all (released_after interval) (requests (main lib h cfg os evs))"
proof -
  have "list_all (released_after interval) (requests (main lib h cfg os evs))"
    using assms by (simp add: main_requests requests_released_after)
  with assms show ?thesis
    using requests_follow_ticks requests_released_after by blast
qed

theorem no_request_before_the_first_tick_witness:
  "map fst (snd (WaitForApproval decode_enroll enroll_client0 events_approved)) =
     [ten_seconds, 2 * ten_seconds] \<and>
   list_all (released_after ten_seconds)
     (snd (WaitForApproval decode_enroll enroll_client0 events_approved)) \<and>
   snd (WaitForApproval decode_enroll enroll_client0 []) = []"
proof -
  have a: "list_all (sent_after ten_seconds) events_approved"
    by (simp add: events_approved_def sent_after_def)
  have p: "keeps_polling decode_enroll (Tick ten_seconds (Inr \<lparr>StatusCode = 200, Body = body_pending\<rparr>))"
    by (simp add: keeps_polling_def Enroll_bodies pending_response_def)
  have d: "decides decode_enroll (Tick (2 * ten_seconds) (Inr \<lparr>StatusCode = 200, Body = body_approved\<rparr>))
      (Inr approved_with_certificates)"
    by (simp add: decides_def Enroll_bodies approved_with_certificates_def)
  have m: "map fst (snd (WaitForApproval decode_enroll enroll_client0 events_approved)) =
      [ten_seconds, 2 * ten_seconds]"
    by (simp add: events_approved_def WaitForApproval_Tick_polling [OF p]
          WaitForApproval_Tick_decides [OF d])
  from no_request_before_the_first_tick [OF a, of decode_enroll enroll_client0]
  have "list_all (released_after ten_seconds)
      (snd (WaitForApproval decode_enroll enroll_client0 events_approved))"
    by (rule conjunct2 [THEN conjunct1])
  with m show ?thesis by simp
qed

section \<open>Restart: the test for an enrolled agent\<close>

lemma startTransport_missing_ca:
  assumes "files os (CACertPath cfg) = None"
  shows "startTransport lib cfg reqs os =
     \<lparr>ending = Fatal ''Failed to enable mTLS'', requests = reqs, os_after = os\<rparr>"
proof (cases "LoadX509KeyPair (tls_X509KeyPair lib) os (CertPath cfg) (KeyPath cfg)")
  case (Inl err)
  then show ?thesis by (simp add: startTransport_def EnableMTLS_def)
next
  case (Inr cert)
  with assms show ?thesis by (simp add: startTransport_def EnableMTLS_def ReadFile_def)
qed

text \<open>
  C8, as the code has it. The agent takes itself as enrolled, and skips the enrollment
  flow, exactly when the certificate file and the private key file are both present at
  their configured paths. The CA certificate file is not looked at: whether it is there,
  and what it holds, changes nothing in the test. An agent that finds itself enrolled
  posts no enrollment request and goes on to enable mutual TLS with the files as they
  are, which ends with the fatal error of \<open>EnableMTLS\<close> when the CA certificate file is
  missing; one that does not, with no token set, ends with a fatal error, and otherwise
  posts the requests of the enrollment polling.
\<close>

theorem enrolled_iff_certificate_and_key:
  "(enrolled cfg os \<longleftrightarrow> files os (CertPath cfg) \<noteq> None \<and> files os (KeyPath cfg) \<noteq> None) \<and>
   (CACertPath cfg \<noteq> CertPath cfg \<and> CACertPath cfg \<noteq> KeyPath cfg \<longrightarrow>
      enrolled cfg (os\<lparr>files := (files os)(CACertPath cfg := ca)\<rparr>) = enrolled cfg os) \<and>
   (enrolled cfg os \<longrightarrow> main lib h cfg os evs = startTransport lib cfg [] os) \<and>
   (enrolled cfg os \<and> files os (CACertPath cfg) = None \<longrightarrow>
      main lib h cfg os evs =
        \<lparr>ending = Fatal ''Failed to enable mTLS'', requests = [], os_after = os\<rparr>) \<and>
   (\<not> enrolled cfg os \<and> EnrollToken cfg = [] \<longrightarrow>
      main lib h cfg os evs =
        \<lparr>ending = Fatal ''EINFRA_ENROLL_TOKEN not set'', requests = [], os_after = os\<rparr>) \<and>
   (\<not> enrolled cfg os \<and> EnrollToken cfg \<noteq> [] \<longrightarrow>
      requests (main lib h cfg os evs) =
        snd (WaitForApproval (json_Decode lib)
               (NewEnrollClient (BackendURL cfg) (EnrollToken cfg)
                  \<lparr>NodeID = uuid_New h,
                   Fingerprint = EncodeToString (sha256_Sum lib
                     (digest_input (machine_identifier h) (hardware_address h))),
                   Hostname = os_Hostname h, Platform = GOOS h, Arch = GOARCH h\<rparr>) evs))"
proof -
  have 1: "enrolled cfg os \<longleftrightarrow> files os (CertPath cfg) \<noteq> None \<and> files os (KeyPath cfg) \<noteq> None"
    by (simp add: enrolled_def fileExists_def)
  have 2: "CACertPath cfg \<noteq> CertPath cfg \<and> CACertPath cfg \<noteq> KeyPath cfg \<longrightarrow>
      enrolled cfg (os\<lparr>files := (files os)(CACertPath cfg := ca)\<rparr>) = enrolled cfg os"
    by (auto simp: enrolled_def fileExists_def)
  have 3: "enrolled cfg os \<longrightarrow> main lib h cfg os evs = startTransport lib cfg [] os"
    by (simp add: main_unfolded)
  have 4: "\<not> enrolled cfg os \<and> EnrollToken cfg = [] \<longrightarrow>
      main lib h cfg os evs =
        \<lparr>ending = Fatal ''EINFRA_ENROLL_TOKEN not set'', requests = [], os_after = os\<rparr>"
    by (simp add: main_unfolded enrollmentFlow_def)
  have 5: "\<not> enrolled cfg os \<and> EnrollToken cfg \<noteq> [] \<longrightarrow>
      requests (main lib h cfg os evs) =
        snd (WaitForApproval (json_Decode lib)
               (NewEnrollClient (BackendURL cfg) (EnrollToken cfg)
                  \<lparr>NodeID = uuid_New h,
                   Fingerprint = EncodeToString (sha256_Sum lib
                     (digest_input (machine_identifier h) (hardware_address h))),
                   Hostname = os_Hostname h, Platform = GOOS h, Arch = GOARCH h\<rparr>) evs)"
    by (simp add: main_requests)
  have 6: "enrolled cfg os \<and> files os (CACertPath cfg) = None \<longrightarrow>
      main lib h cfg os evs =
        \<lparr>ending = Fatal ''Failed to enable mTLS'', requests = [], os_after = os\<rparr>"
    by (simp add: main_unfolded startTransport_missing_ca)
  show ?thesis
    by (intro conjI) (rule 1, rule 2, rule 3, rule 6, rule 4, rule 5)
qed

lemma startTransport_without_ca:
  "startTransport lib0 cfg0 [] os_without_ca =
     \<lparr>ending = Fatal ''Failed to enable mTLS'', requests = [], os_after = os_without_ca\<rparr>"
  by (simp add: startTransport_def EnableMTLS_def LoadX509KeyPair_def ReadFile_def
        os_without_ca_def cfg0_def lib0_def)

theorem enrolled_iff_certificate_and_key_witness:
  "enrolled cfg0 os_without_ca \<and> \<not> enrolled cfg0 os_empty \<and>
   main lib0 host_with_both cfg0 os_without_ca events_approved =
     \<lparr>ending = Fatal ''Failed to enable mTLS'', requests = [], os_after = os_without_ca\<rparr> \<and>
   map fst (requests (main lib0 host_with_both cfg0 os_empty events_approved)) =
     [ten_seconds, 2 * ten_seconds]"
proof -
  note inst = enrolled_iff_certificate_and_key [of cfg0 _ _ lib0 host_with_both events_approved]
  have e: "enrolled cfg0 os_without_ca"
    using inst [of os_without_ca, THEN conjunct1]
    by (simp add: os_without_ca_def cfg0_def)
  have n: "\<not> enrolled cfg0 os_empty"
    using inst [of os_empty, THEN conjunct1]
    by (simp add: os_empty_def)
  have t: "EnrollToken cfg0 \<noteq> []" by (simp add: cfg0_def)
  have p: "keeps_polling decode_enroll (Tick ten_seconds (Inr \<lparr>StatusCode = 200, Body = body_pending\<rparr>))"
    by (simp add: keeps_polling_def Enroll_bodies pending_response_def)
  have d: "decides decode_enroll (Tick (2 * ten_seconds) (Inr \<lparr>StatusCode = 200, Body = body_approved\<rparr>))
      (Inr approved_with_certificates)"
    by (simp add: decides_def Enroll_bodies approved_with_certificates_def)
  have m: "map fst (snd (WaitForApproval decode_enroll c events_approved)) =
      [ten_seconds, 2 * ten_seconds]" for c
    by (simp add: events_approved_def WaitForApproval_Tick_polling [OF p]
          WaitForApproval_Tick_decides [OF d])
  have j: "json_Decode lib0 = decode_enroll" by (simp add: lib0_def)
  from inst [of os_without_ca] e
  have "main lib0 host_with_both cfg0 os_without_ca events_approved =
      startTransport lib0 cfg0 [] os_without_ca"
    by blast
  moreover from inst [of os_empty] n t
  have "requests (main lib0 host_with_both cfg0 os_empty events_approved) =
      snd (WaitForApproval (json_Decode lib0)
             (NewEnrollClient (BackendURL cfg0) (EnrollToken cfg0)
                \<lparr>NodeID = uuid_New host_with_both,
                 Fingerprint = EncodeToString (sha256_Sum lib0
                   (digest_input (machine_identifier host_with_both) (hardware_address host_with_both))),
                 Hostname = os_Hostname host_with_both, Platform = GOOS host_with_both,
                 Arch = GOARCH host_with_both\<rparr>) events_approved)"
    by blast
  ultimately show ?thesis
    using e n by (simp add: startTransport_without_ca j m)
qed

text \<open>
  C8 as stated fails: with the certificate and the key in place and no CA certificate
  file, not all three files are present, and yet the agent takes itself as enrolled: it
  posts no enrollment request, although the control plane would approve, and ends with
  the fatal error of \<open>EnableMTLS\<close>.
\<close>

theorem enrolled_without_ca_certificate:
  "\<not> fileExists os_without_ca (CACertPath cfg0) \<and>
   enrolled cfg0 os_without_ca \<and>
   main lib0 host_with_both cfg0 os_without_ca events_approved =
     \<lparr>ending = Fatal ''Failed to enable mTLS'', requests = [], os_after = os_without_ca\<rparr>"
proof -
  have e: "enrolled cfg0 os_without_ca"
    by (simp add: enrolled_def fileExists_def os_without_ca_def cfg0_def)
  have "\<not> fileExists os_without_ca (CACertPath cfg0)"
    by (simp add: fileExists_def os_without_ca_def cfg0_def)
  with e show ?thesis
    by (simp add: main_unfolded startTransport_without_ca)
qed

section \<open>The task loop: one batch\<close>

lemma executeTasks_append:
  "executeTasks registry Post (xs @ ys) s =
     executeTasks registry Post ys (executeTasks registry Post xs s)"
  by (induction xs arbitrary: s) (simp_all add: Let_def split: prod.splits)

lemma Registry_Execute_task:
  "Registry_Execute registry task s =
     (task_result registry task (world s),
      s\<lparr>world := (case executors registry (Type task) of
                     None \<Rightarrow> world s
                   | Some exec \<Rightarrow> snd (Execute exec task (world s))),
        calls := calls s @ (if executors registry (Type task) = None then [] else [Executed task])\<rparr>)"
  by (cases "executors registry (Type task)")
     (simp_all add: Registry_Execute_def task_result_def split: prod.splits)

lemma executeTasks_step:
  "executeTasks registry Post (task # tasks) s =
     executeTasks registry Post tasks
       \<lparr>world = world_after_task registry Post task (world s),
        calls = calls s @ task_calls registry task (task_result registry task (world s))\<rparr>"
proof -
  let ?path = "''/api/v1/agent/tasks/'' @ ID task @ ''/result''"
  let ?result = "task_result registry task (world s)"
  let ?w1 = "case executors registry (Type task) of
      None \<Rightarrow> world s | Some exec \<Rightarrow> snd (Execute exec task (world s))"
  let ?executed = "if executors registry (Type task) = None then [] else [Executed task]"
  obtain answer w where p: "Post ?path ?result ?w1 = (answer, w)"
    by (cases "Post ?path ?result ?w1")
  have w: "world_after_task registry Post task (world s) = w"
    using p by (simp add: world_after_task_def)
  have "executeTasks registry Post (task # tasks) s =
      executeTasks registry Post tasks
        (s\<lparr>world := ?w1, calls := calls s @ ?executed\<rparr>
          \<lparr>world := w, calls := calls s @ ?executed @ [Posted ?path ?result]\<rparr>)"
    using p by (simp add: Registry_Execute_task Let_def)
  moreover have "s\<lparr>world := ?w1, calls := calls s @ ?executed\<rparr>
          \<lparr>world := w, calls := calls s @ ?executed @ [Posted ?path ?result]\<rparr> =
      \<lparr>world = w, calls = calls s @ task_calls registry task ?result\<rparr>"
    by (cases s) (simp add: task_calls_def)
  ultimately show ?thesis by (simp only: w)
qed

lemma executeTasks_run:
  "executeTasks registry Post tasks s =
     \<lparr>world = fold (world_after_task registry Post) tasks (world s),
      calls = calls s @
        concat (map2 (\<lambda>task w. task_calls registry task (task_result registry task w)) tasks
                  (task_worlds registry Post tasks (world s)))\<rparr>"
proof (induction tasks arbitrary: s)
  case Nil
  then show ?case by simp
next
  case (Cons task tasks)
  show ?case
    by (simp only: executeTasks_step Cons.IH) simp
qed

lemma length_task_worlds: "length (task_worlds registry Post tasks w) = length tasks"
  by (induction tasks arbitrary: w) simp_all

lemma task_worlds_nth:
  "k < length tasks \<Longrightarrow>
     task_worlds registry Post tasks w ! k =
       fold (world_after_task registry Post) (take k tasks) w"
proof (induction tasks arbitrary: w k)
  case Nil
  then show ?case by simp
next
  case (Cons task tasks)
  then show ?case by (cases k) simp_all
qed

text \<open>
  C9. For a batch of tasks from one poll, the task loop leaves the run in this state.
  Its calls are, task by task in the order received, the call of the task's executor
  (when its type is registered) followed by one report to the result path of this task;
  the result reported is the one the executor returned for this task, or the failure for
  an unsupported type, so there is exactly one result per task. Each task runs in the
  world the tasks before it leave, and that world has passed through the executor and the
  report of each of them. This holds for every registry and every behaviour of the
  executors and of the transport, so neither a result that reports a failure nor a
  report that fails stops the batch or changes what is done for the later tasks. The
  batch is the list decoded from the answer to the poll.
\<close>

theorem executeTasks_in_order:
  "executeTasks registry Post tasks s =
     \<lparr>world = fold (world_after_task registry Post) tasks (world s),
      calls = calls s @
        concat (map2 (\<lambda>task w. task_calls registry task (task_result registry task w)) tasks
                  (task_worlds registry Post tasks (world s)))\<rparr> \<and>
   length (task_worlds registry Post tasks (world s)) = length tasks \<and>
   (k < length tasks \<longrightarrow>
      task_worlds registry Post tasks (world s) ! k =
        world (executeTasks registry Post (take k tasks) s)) \<and>
   executeTasks registry Post (before @ task # after) s =
     executeTasks registry Post after
       (executeTasks registry Post [task] (executeTasks registry Post before s)) \<and>
   (Get ''/api/v1/agent/tasks/poll'' (world s) = (Inr resp, w) \<and>
    DecodeJSON decode resp = Inr tasks \<longrightarrow>
      taskTick registry Get Post decode s =
        executeTasks registry Post tasks
          (s\<lparr>world := w, calls := calls s @ [Polled ''/api/v1/agent/tasks/poll'']\<rparr>))"
proof -
  have 1: "k < length tasks \<longrightarrow>
      task_worlds registry Post tasks (world s) ! k =
        world (executeTasks registry Post (take k tasks) s)"
    by (simp add: task_worlds_nth executeTasks_run)
  have 2: "executeTasks registry Post (before @ task # after) s =
      executeTasks registry Post after
        (executeTasks registry Post [task] (executeTasks registry Post before s))"
    using executeTasks_append [of registry Post before "task # after" s]
      executeTasks_append [of registry Post "[task]" after]
    by simp
  have 3: "Get ''/api/v1/agent/tasks/poll'' (world s) = (Inr resp, w) \<and>
      DecodeJSON decode resp = Inr tasks \<longrightarrow>
        taskTick registry Get Post decode s =
          executeTasks registry Post tasks
            (s\<lparr>world := w, calls := calls s @ [Polled ''/api/v1/agent/tasks/poll'']\<rparr>)"
    by (simp add: taskTick_def)
  show ?thesis
    by (intro conjI) (rule executeTasks_run, rule length_task_worlds, rule 1, rule 2, rule 3)
qed

theorem executeTasks_in_order_witness:
  "taskTick registry0 tasks_Get failing_Post decode_three \<lparr>world = 0, calls = []\<rparr> =
     \<lparr>world = 302,
      calls =
        [Polled ''/api/v1/agent/tasks/poll'',
         Executed start_action,
         Posted ''/api/v1/agent/tasks/a-15/result''
           \<lparr>ActionID = ''a-15'', Success = True, Output = [], Error = [], Data = Map.empty\<rparr>,
         Executed stop_action,
         Posted ''/api/v1/agent/tasks/a-16/result''
           \<lparr>ActionID = ''a-16'', Success = False, Output = [], Error = ''exit status 1'',
            Data = Map.empty\<rparr>,
         Posted ''/api/v1/agent/tasks/a-17/result''
           \<lparr>ActionID = ''a-17'', Success = False, Output = [],
            Error = ''unsupported action type: shell.exec'', Data = Map.empty\<rparr>]\<rparr> \<and>
   task_worlds registry0 failing_Post [start_action, stop_action, shell_action] 0 = [0, 101, 202]"
proof -
  let ?s = "\<lparr>world = 0, calls = []\<rparr> :: (string, nat) run"
  let ?s1 = "?s\<lparr>world := 0, calls := calls ?s @ [Polled ''/api/v1/agent/tasks/poll'']\<rparr>"
  let ?tasks = "[start_action, stop_action, shell_action]"
  have g: "tasks_Get ''/api/v1/agent/tasks/poll'' (world ?s) = (Inr \<lparr>StatusCode = 200, Body = ''tasks''\<rparr>, 0)"
    by (simp add: tasks_Get_def)
  have d: "DecodeJSON decode_three \<lparr>StatusCode = 200, Body = ''tasks''\<rparr> = Inr ?tasks"
    by (simp add: DecodeJSON_def decode_three_def)
  have l: "executors registry0 ''service.start'' = Some service_executor"
    "executors registry0 ''service.stop'' = Some service_executor"
    "executors registry0 ''shell.exec'' = None"
    by (simp_all add: registry0_def Register_lookup NewRegistry_def service_executor_def)
  have t: "taskTick registry0 tasks_Get failing_Post decode_three ?s =
      executeTasks registry0 failing_Post ?tasks ?s1"
    using executeTasks_in_order [of registry0 failing_Post ?tasks ?s 0 "[]" start_action "[]" tasks_Get
        "\<lparr>StatusCode = 200, Body = ''tasks''\<rparr>" 0 decode_three] g d
    by blast
  have r: "executeTasks registry0 failing_Post ?tasks ?s1 =
      \<lparr>world = fold (world_after_task registry0 failing_Post) ?tasks (world ?s1),
       calls = calls ?s1 @
         concat (map2 (\<lambda>task w. task_calls registry0 task (task_result registry0 task w)) ?tasks
                   (task_worlds registry0 failing_Post ?tasks (world ?s1)))\<rparr>"
    using executeTasks_in_order [of registry0 failing_Post ?tasks ?s1 0 "[]" start_action "[]"]
    by (rule conjunct1)
  have w: "task_worlds registry0 failing_Post ?tasks 0 = [0, 101, 202]"
    by (simp add: world_after_task_def task_result_def l start_action_def stop_action_def
          shell_action_def failing_Post_def service_executor_def)
  show ?thesis
    unfolding t r
    by (simp add: w world_after_task_def task_result_def task_calls_def l start_action_def
          stop_action_def shell_action_def failing_Post_def service_executor_def)
qed

end
